theory Spec2Isabelle
  imports Complex_Main "HOL-Library.Multiset"
begin

section \<open>JavaScript numbers\<close>

text \<open>
  Every \<^verbatim>\<open>number\<close> of the TypeScript source is a \<open>jsnum\<close>: a finite value, one of
  the two infinities, or NaN. A finite double is idealised as the exact real it denotes:
  rounding error, overflow of a finite result and the sign of zero are not modelled.
  The operations below follow IEEE 754 on the non-finite values.
\<close>

datatype jsnum = Fin real | PInf | NInf | NaN

fun jneg :: "jsnum \<Rightarrow> jsnum" where
  "jneg (Fin a) = Fin (- a)"
| "jneg PInf = NInf"
| "jneg NInf = PInf"
| "jneg NaN = NaN"

fun jadd :: "jsnum \<Rightarrow> jsnum \<Rightarrow> jsnum" where
  "jadd (Fin a) (Fin b) = Fin (a + b)"
| "jadd (Fin a) PInf = PInf"
| "jadd (Fin a) NInf = NInf"
| "jadd PInf (Fin b) = PInf"
| "jadd PInf PInf = PInf"
| "jadd PInf NInf = NaN"
| "jadd NInf (Fin b) = NInf"
| "jadd NInf NInf = NInf"
| "jadd NInf PInf = NaN"
| "jadd NaN y = NaN"
| "jadd x NaN = NaN"

definition jsub :: "jsnum \<Rightarrow> jsnum \<Rightarrow> jsnum" where
  "jsub x y = jadd x (jneg y)"

text \<open>The product of an infinity \<open>i\<close> with a finite number \<open>b\<close>.\<close>

definition scale_inf :: "jsnum \<Rightarrow> real \<Rightarrow> jsnum" where
  "scale_inf i b = (if b = 0 then NaN else if 0 < b then i else jneg i)"

fun jmul :: "jsnum \<Rightarrow> jsnum \<Rightarrow> jsnum" where
  "jmul (Fin a) (Fin b) = Fin (a * b)"
| "jmul (Fin a) PInf = scale_inf PInf a"
| "jmul (Fin a) NInf = scale_inf NInf a"
| "jmul PInf (Fin b) = scale_inf PInf b"
| "jmul NInf (Fin b) = scale_inf NInf b"
| "jmul PInf PInf = PInf"
| "jmul PInf NInf = NInf"
| "jmul NInf PInf = NInf"
| "jmul NInf NInf = PInf"
| "jmul NaN y = NaN"
| "jmul x NaN = NaN"

text \<open>
  Division. A finite non-zero dividend over zero is an infinity, zero over zero is NaN
  (the divisors of this program that can be zero are sums, hence \<open>+0\<close>).
\<close>

fun jdiv :: "jsnum \<Rightarrow> jsnum \<Rightarrow> jsnum" where
  "jdiv (Fin a) (Fin b) =
     (if b = 0 then (if a = 0 then NaN else if 0 < a then PInf else NInf)
      else Fin (a / b))"
| "jdiv (Fin a) PInf = Fin 0"
| "jdiv (Fin a) NInf = Fin 0"
| "jdiv PInf (Fin b) = (if 0 \<le> b then PInf else NInf)"
| "jdiv NInf (Fin b) = (if 0 \<le> b then NInf else PInf)"
| "jdiv PInf PInf = NaN"
| "jdiv PInf NInf = NaN"
| "jdiv NInf PInf = NaN"
| "jdiv NInf NInf = NaN"
| "jdiv NaN y = NaN"
| "jdiv x NaN = NaN"

fun jlt :: "jsnum \<Rightarrow> jsnum \<Rightarrow> bool" where
  "jlt (Fin a) (Fin b) = (a < b)"
| "jlt (Fin a) PInf = True"
| "jlt NInf (Fin b) = True"
| "jlt NInf PInf = True"
| "jlt x y = False"

fun jle :: "jsnum \<Rightarrow> jsnum \<Rightarrow> bool" where
  "jle (Fin a) (Fin b) = (a \<le> b)"
| "jle NaN y = False"
| "jle x NaN = False"
| "jle NInf y = True"
| "jle x PInf = True"
| "jle x y = False"

text \<open>\<^verbatim>\<open>Math.max\<close> of two arguments: NaN if either is NaN.\<close>

fun jmax :: "jsnum \<Rightarrow> jsnum \<Rightarrow> jsnum" where
  "jmax NaN y = NaN"
| "jmax x NaN = NaN"
| "jmax x y = (if jle x y then y else x)"

text \<open>\<^verbatim>\<open>Math.round\<close>: the nearest integer, a tie going towards plus infinity.\<close>

fun Math_round :: "jsnum \<Rightarrow> jsnum" where
  "Math_round (Fin a) = Fin (of_int \<lfloor>a + 1 / 2\<rfloor>)"
| "Math_round x = x"

fun isFinite :: "jsnum \<Rightarrow> bool" where
  "isFinite (Fin a) = True"
| "isFinite x = False"

fun isInteger :: "jsnum \<Rightarrow> bool" where
  "isInteger (Fin a) = (of_int \<lfloor>a\<rfloor> = a)"
| "isInteger x = False"

text \<open>\<^verbatim>\<open>Number.EPSILON\<close> is \<open>2\<^sup>-\<^sup>5\<^sup>2\<close>.\<close>

definition EPSILON :: real where
  "EPSILON = 1 / 2 ^ 52"

text \<open>\<^verbatim>\<open>round2(n) = Math.round((n + Number.EPSILON) * 100) / 100\<close>\<close>

definition round2 :: "jsnum \<Rightarrow> jsnum" where
  "round2 n = jdiv (Math_round (jmul (jadd n (Fin EPSILON)) (Fin 100))) (Fin 100)"

section \<open>The withholding engine\<close>

subsection \<open>Data\<close>

datatype LocationPT = continente | madeira | acores

datatype MaritalStatus = single | married_one_holder | married_two_holders

record IrsInput =
  grossSalary :: jsnum
  maritalStatus :: MaritalStatus
  location :: LocationPT
  dependents :: jsnum
  hasDisability :: "bool option"
  socialSecurityRate :: "jsnum option"

text \<open>
  A deduction is a number or a tagged formula. \<open>Malformed\<close> stands for any other value
  the dataset document may hold there (\<^verbatim>\<open>null\<close>, an object with another tag).
  The numbers of the dataset come from a JSON document and are finite.
\<close>

datatype Deduction = Literal real | Formula string | Malformed

text \<open>
  A band; the fields \<^verbatim>\<open>effectiveRateAtLimit\<close> and \<^verbatim>\<open>notes\<close> are never read and
  are left out. An absent optional field is \<open>None\<close>.
\<close>

record Band =
  upTo :: "real option"
  over :: "real option"
  rate :: real
  deduction :: Deduction
  additionalPerDependent :: "real option"

text \<open>A table of the dataset; \<open>id_t\<close> is its \<^verbatim>\<open>id\<close>.\<close>

record Table =
  id_t :: string
  hasDisability :: bool
  bands :: "Band list"

record IrsDataset =
  tables :: "Table list"

record IrsResult =
  tableId :: string
  band :: Band
  rate :: real
  deduction :: jsnum
  additionalPerDependent :: jsnum
  irsWithheld :: jsnum
  socialSecurity :: jsnum
  netSalary :: jsnum

text \<open>One constructor for each \<^verbatim>\<open>throw\<close> of the service, in the order of the source.\<close>

datatype error =
    DatasetNotSet
  | GrossSalaryNotPositive
  | DependentsNotInteger
  | LocationNotSupported LocationPT
  | TableNotFound string
  | NoMatchingBand
  | UnsupportedFormula string
  | InvalidFormulaNumbers string
  | InvalidDeductionField

subsection \<open>pickTableId\<close>

definition pickTableId :: "MaritalStatus \<Rightarrow> jsnum \<Rightarrow> bool \<Rightarrow> string" where
  "pickTableId maritalStatus' dependents' hasDisability' =
     (if hasDisability' then
        (if maritalStatus' = married_one_holder then ''VII''
         else if maritalStatus' = married_two_holders then
           (if jle (Fin 1) dependents' then ''VI'' else ''IV'')
         else (if jle (Fin 1) dependents' then ''V'' else ''IV''))
      else
        (if maritalStatus' = married_one_holder then ''III''
         else (if jle (Fin 1) dependents' then ''II'' else ''I'')))"

subsection \<open>pickBand\<close>

text \<open>
  The comparator of the sort: \<^verbatim>\<open>(a.upTo ?? Infinity) - (b.upTo ?? Infinity)\<close>.
\<close>

definition band_compare :: "Band \<Rightarrow> Band \<Rightarrow> jsnum" where
  "band_compare a b =
     (let au = (case upTo a of Some u \<Rightarrow> Fin u | None \<Rightarrow> PInf);
          bu = (case upTo b of Some u \<Rightarrow> Fin u | None \<Rightarrow> PInf)
      in jsub au bu)"

text \<open>
  \<^verbatim>\<open>Array.prototype.sort\<close> is stable and takes a comparator result that is NaN for
  zero. It is modelled as the stable insertion sort: an element goes in front of the
  first element that the comparator puts strictly after it.
\<close>

fun insert_band :: "Band \<Rightarrow> Band list \<Rightarrow> Band list" where
  "insert_band x [] = [x]"
| "insert_band x (y # ys) =
     (if jlt (Fin 0) (band_compare y x) then x # y # ys else y # insert_band x ys)"

definition sort_bands :: "Band list \<Rightarrow> Band list" where
  "sort_bands bs = foldl (\<lambda>acc x. insert_band x acc) [] bs"

text \<open>The \<^verbatim>\<open>for (const b of sorted)\<close> loop.\<close>

fun scan_bands :: "Band list \<Rightarrow> jsnum \<Rightarrow> Band option" where
  "scan_bands [] g = None"
| "scan_bands (b # bs) g =
     (case upTo b of
        Some u \<Rightarrow> if jle g (Fin u) then Some b else scan_bands bs g
      | None \<Rightarrow> scan_bands bs g)"

definition pickBand :: "Band list \<Rightarrow> jsnum \<Rightarrow> error + Band" where
  "pickBand bs g =
     (let sorted = sort_bands bs in
      case scan_bands sorted g of
        Some b \<Rightarrow> Inr b
      | None \<Rightarrow>
          (case find (\<lambda>b. over b \<noteq> None) sorted of
             None \<Rightarrow> Inl NoMatchingBand
           | Some overBand \<Rightarrow> Inr overBand))"

subsection \<open>resolveDeduction\<close>

text \<open>
  The characters \<^verbatim>\<open>\s\<close> matches, among those of an ASCII expression: space, tab, line
  feed, vertical tab, form feed, carriage return.
\<close>

definition is_space :: "char \<Rightarrow> bool" where
  "is_space c = (c \<in> set [CHR '' '', CHR 0x09, CHR 0x0A, CHR 0x0B, CHR 0x0C, CHR 0x0D])"

text \<open>\<^verbatim>\<open>expression.replace(/\s+/g, '')\<close>\<close>

definition strip_spaces :: "string \<Rightarrow> string" where
  "strip_spaces s = filter (\<lambda>c. \<not> is_space c) s"

text \<open>The character class \<^verbatim>\<open>[0-9.]\<close>.\<close>

definition is_numchar :: "char \<Rightarrow> bool" where
  "is_numchar c = (c \<in> set ''0123456789.'')"

text \<open>
  The match of \<^verbatim>\<open>/^([0-9.]+)\*([0-9.]+)\*\(([0-9.]+)-R\)$/i\<close>, returning the three
  groups. No character of the class equals the literal that follows a group, so the
  greedy group is the longest run of class characters, and the match is deterministic.
  Under the flag \<^verbatim>\<open>i\<close> the letter matches in both cases.
\<close>

definition match_formula :: "string \<Rightarrow> (string \<times> string \<times> string) option" where
  "match_formula e =
     (let a = takeWhile is_numchar e; r1 = dropWhile is_numchar e in
      if a = [] \<or> take 1 r1 \<noteq> ''*'' then None
      else
        (let s1 = drop 1 r1; b = takeWhile is_numchar s1; r2 = dropWhile is_numchar s1 in
         if b = [] \<or> take 2 r2 \<noteq> ''*('' then None
         else
           (let s2 = drop 2 r2; c = takeWhile is_numchar s2; r3 = dropWhile is_numchar s2 in
            if c = [] \<or> (r3 \<noteq> ''-R)'' \<and> r3 \<noteq> ''-r)'') then None
            else Some (a, b, c))))"

definition digit_val :: "char \<Rightarrow> nat" where
  "digit_val c = of_char c - 48"

definition digits_val :: "string \<Rightarrow> nat" where
  "digits_val ds = foldl (\<lambda>n c. 10 * n + digit_val c) 0 ds"

text \<open>
  \<^verbatim>\<open>Number(s)\<close> for a string of digits and dots: the decimal value when \<open>s\<close> has at
  most one dot and at least one digit, NaN otherwise.
\<close>

definition Number :: "string \<Rightarrow> jsnum" where
  "Number s =
     (let ip = takeWhile (\<lambda>c. c \<noteq> CHR ''.'') s; rest = dropWhile (\<lambda>c. c \<noteq> CHR ''.'') s in
      case rest of
        [] \<Rightarrow> Fin (real (digits_val ip))
      | dot # fp \<Rightarrow>
          if CHR ''.'' \<in> set fp \<or> (ip = [] \<and> fp = []) then NaN
          else Fin (real (digits_val ip) + real (digits_val fp) / 10 ^ length fp))"

definition resolveDeduction :: "Deduction \<Rightarrow> jsnum \<Rightarrow> error + jsnum" where
  "resolveDeduction d R =
     (case d of
        Literal n \<Rightarrow> Inr (Fin n)
      | Formula expression \<Rightarrow>
          (case match_formula (strip_spaces expression) of
             None \<Rightarrow> Inl (UnsupportedFormula expression)
           | Some (m1, m2, m3) \<Rightarrow>
               (let a = Number m1; b = Number m2; c = Number m3 in
                if \<not> (isFinite a \<and> isFinite b \<and> isFinite c)
                then Inl (InvalidFormulaNumbers expression)
                else Inr (jmul (jmul a b) (jsub c R))))
      | Malformed \<Rightarrow> Inl InvalidDeductionField)"

subsection \<open>calculate\<close>

text \<open>
  The field \<^verbatim>\<open>this.data\<close> is the first argument: \<open>None\<close> until \<^verbatim>\<open>setDataset\<close> has run.
\<close>

definition calculate :: "IrsDataset option \<Rightarrow> IrsInput \<Rightarrow> error + IrsResult" where
  "calculate data input =
     (case data of
        None \<Rightarrow> Inl DatasetNotSet
      | Some ds \<Rightarrow>
         (let grossSalary = IrsInput.grossSalary input;
              maritalStatus = IrsInput.maritalStatus input;
              location = IrsInput.location input;
              dependents = IrsInput.dependents input;
              hasDisability = (case IrsInput.hasDisability input of None \<Rightarrow> False | Some h \<Rightarrow> h);
              socialSecurityRate =
                (case IrsInput.socialSecurityRate input of None \<Rightarrow> Fin 0.11 | Some r \<Rightarrow> r)
          in
          if jle grossSalary (Fin 0) \<or> \<not> isFinite grossSalary then Inl GrossSalaryNotPositive
          else if jlt dependents (Fin 0) \<or> \<not> isInteger dependents then Inl DependentsNotInteger
          else if location \<noteq> continente then Inl (LocationNotSupported location)
          else
            (let tableId = pickTableId maritalStatus dependents hasDisability in
             case find (\<lambda>t. id_t t = tableId) (tables ds) of
               None \<Rightarrow> Inl (TableNotFound tableId)
             | Some table \<Rightarrow>
                (case pickBand (bands table) grossSalary of
                   Inl e \<Rightarrow> Inl e
                 | Inr band' \<Rightarrow>
                    (let rate = Band.rate band';
                         additionalPerDependent =
                           (case Band.additionalPerDependent band' of None \<Rightarrow> 0 | Some a \<Rightarrow> a)
                     in
                     case resolveDeduction (Band.deduction band') grossSalary of
                       Inl e \<Rightarrow> Inl e
                     | Inr deduction' \<Rightarrow>
                        (let irsRaw =
                               jsub (jsub (jmul grossSalary (Fin rate)) deduction')
                                    (jmul (Fin additionalPerDependent) dependents);
                             irsWithheld = round2 (jmax (Fin 0) irsRaw);
                             socialSecurity = round2 (jmul grossSalary socialSecurityRate);
                             netSalary = round2 (jsub (jsub grossSalary irsWithheld) socialSecurity)
                         in Inr \<lparr> tableId = tableId,
                                  band = band',
                                  rate = rate,
                                  deduction = round2 deduction',
                                  additionalPerDependent = round2 (Fin additionalPerDependent),
                                  irsWithheld = irsWithheld,
                                  socialSecurity = socialSecurity,
                                  netSalary = netSalary \<rparr>))))))"

section \<open>The reverse solver\<close>

record ReverseCalculationInput =
  targetNetSalary :: jsnum
  location :: LocationPT
  maritalStatus :: MaritalStatus
  dependents :: jsnum
  hasDuodecimos :: bool
  mealAllowanceDaily :: jsnum
  mealAllowanceDays :: jsnum
  mealAllowanceMonths :: jsnum
  ihtPercentage :: jsnum
  tsu :: jsnum
  ssRate :: jsnum

record CalculationProposal =
  flexBenefitsPercentage :: jsnum
  annualCost :: jsnum
  monthlyBaseSalary :: jsnum
  monthlyIHT :: jsnum
  monthlyBenefits :: jsnum
  monthlyMealAllowance :: jsnum
  irs :: jsnum
  socialSecurityMax :: jsnum
  socialSecurityMin :: jsnum
  totalNetMin :: jsnum
  totalNetMax :: jsnum

subsection \<open>calculateOutputs\<close>

text \<open>
  The local constants of \<^verbatim>\<open>calculateOutputs\<close> that the rest of the function reads:
  the monthly decomposition of a candidate annual cost (lines 73 to 87 of the source).
\<close>

record MonthlyValues =
  monthlyMealAllowance :: jsnum
  monthlyValueToBenefits :: jsnum
  monthlyIHT :: jsnum
  monthlyBaseSalary :: jsnum
  grossSalary :: jsnum

definition monthly_values :: "ReverseCalculationInput \<Rightarrow> jsnum \<Rightarrow> jsnum \<Rightarrow> MonthlyValues" where
  "monthly_values input annualCost' flexPct =
     (let monthsToMultiply = (if hasDuodecimos input then Fin 12 else Fin 14);
          annualDailyMealAllowance =
            jmul (jmul (mealAllowanceDaily input) (mealAllowanceDays input))
                 (mealAllowanceMonths input);
          monthlyMealAllowance = jmul (mealAllowanceDaily input) (mealAllowanceDays input);
          valueSubjectToTsu = jmax (Fin 0) (jsub annualCost' annualDailyMealAllowance);
          totalValueAfterTsu =
            jdiv valueSubjectToTsu (jadd (Fin 1) (jdiv (tsu input) (Fin 100)));
          monthlyValueToDistribute = jdiv totalValueAfterTsu monthsToMultiply;
          monthlyValueToBenefits = jdiv (jmul totalValueAfterTsu flexPct) (Fin 12);
          monthlyValueWithoutBenefits = jsub monthlyValueToDistribute monthlyValueToBenefits;
          monthlyIHT = jdiv (jmul monthlyValueWithoutBenefits (ihtPercentage input)) (Fin 100);
          monthlyBaseSalary = jsub monthlyValueWithoutBenefits monthlyIHT;
          grossSalary = jadd monthlyBaseSalary monthlyIHT
      in \<lparr> monthlyMealAllowance = monthlyMealAllowance,
           monthlyValueToBenefits = monthlyValueToBenefits,
           monthlyIHT = monthlyIHT,
           monthlyBaseSalary = monthlyBaseSalary,
           grossSalary = grossSalary \<rparr>)"

text \<open>
  The three calls of the withholding engine run in the order of the source; the first
  one that throws ends the call.
\<close>

definition calculateOutputs ::
  "IrsDataset option \<Rightarrow> ReverseCalculationInput \<Rightarrow> jsnum \<Rightarrow> jsnum \<Rightarrow> error + CalculationProposal"
where
  "calculateOutputs data input annualCost' flexPct =
     (let mv = monthly_values input annualCost' flexPct;
          monthlyMealAllowance = MonthlyValues.monthlyMealAllowance mv;
          monthlyValueToBenefits = MonthlyValues.monthlyValueToBenefits mv;
          monthlyIHT = MonthlyValues.monthlyIHT mv;
          monthlyBaseSalary = MonthlyValues.monthlyBaseSalary mv;
          grossSalary = MonthlyValues.grossSalary mv
      in
      case calculate data
             \<lparr> IrsInput.grossSalary = grossSalary,
               maritalStatus = ReverseCalculationInput.maritalStatus input,
               location = ReverseCalculationInput.location input,
               dependents = ReverseCalculationInput.dependents input,
               hasDisability = None,
               socialSecurityRate = Some (ssRate input) \<rparr> of
        Inl e \<Rightarrow> Inl e
      | Inr calculationMax \<Rightarrow>
         (let totalNetMax =
                jadd (jadd (netSalary calculationMax) monthlyMealAllowance) monthlyValueToBenefits
          in
          case calculate data
                 \<lparr> IrsInput.grossSalary = jadd grossSalary monthlyValueToBenefits,
                   maritalStatus = ReverseCalculationInput.maritalStatus input,
                   location = ReverseCalculationInput.location input,
                   dependents = ReverseCalculationInput.dependents input,
                   hasDisability = None,
                   socialSecurityRate = Some (Fin 0) \<rparr> of
            Inl e \<Rightarrow> Inl e
          | Inr calculationMinIRS \<Rightarrow>
             (case calculate data
                     \<lparr> IrsInput.grossSalary = grossSalary,
                       maritalStatus = ReverseCalculationInput.maritalStatus input,
                       location = ReverseCalculationInput.location input,
                       dependents = ReverseCalculationInput.dependents input,
                       hasDisability = None,
                       socialSecurityRate = Some (ssRate input) \<rparr> of
                Inl e \<Rightarrow> Inl e
              | Inr calculationSS \<Rightarrow>
                 (let ssForMin = socialSecurity calculationSS;
                      netSalaryMin =
                        jsub (jsub (jadd grossSalary monthlyValueToBenefits)
                                   (irsWithheld calculationMinIRS))
                             ssForMin;
                      totalNetMin = jadd netSalaryMin monthlyMealAllowance
                  in Inr \<lparr> flexBenefitsPercentage = jmul flexPct (Fin 100),
                           annualCost = annualCost',
                           monthlyBaseSalary = monthlyBaseSalary,
                           monthlyIHT = monthlyIHT,
                           monthlyBenefits = monthlyValueToBenefits,
                           monthlyMealAllowance = monthlyMealAllowance,
                           irs = irsWithheld calculationMax,
                           socialSecurityMax = socialSecurity calculationMax,
                           socialSecurityMin = ssForMin,
                           totalNetMin = totalNetMin,
                           totalNetMax = totalNetMax \<rparr>))))"

subsection \<open>solveForAnnualCost\<close>

text \<open>
  The loop \<^verbatim>\<open>for (let i = 0; i < 50; i++)\<close> with its variables \<^verbatim>\<open>low\<close>, \<^verbatim>\<open>high\<close> and
  \<^verbatim>\<open>bestResult\<close> (\<open>None\<close> is \<^verbatim>\<open>null\<close>); \<^verbatim>\<open>mid\<close> is assigned before each use.
  The bounds start at 0 and 1000000 and only ever take the value of a midpoint, so they
  are finite and kept as reals.
\<close>

function solve_loop ::
  "IrsDataset option \<Rightarrow> ReverseCalculationInput \<Rightarrow> jsnum \<Rightarrow> nat \<Rightarrow> real \<Rightarrow> real \<Rightarrow>
   CalculationProposal option \<Rightarrow> error + CalculationProposal option"
where
  "solve_loop data input flexPct i low high bestResult =
     (if i < 50 then
        (let mid = (low + high) / 2 in
         case calculateOutputs data input (Fin mid) flexPct of
           Inl e \<Rightarrow> Inl e
         | Inr result \<Rightarrow>
             if jlt (totalNetMax result) (targetNetSalary input)
             then solve_loop data input flexPct (i + 1) mid high (Some result)
             else solve_loop data input flexPct (i + 1) low mid (Some result))
      else Inr bestResult)"
  by pat_completeness auto
termination
  by (relation "measure (\<lambda>(data, input, flexPct, i, low, high, bestResult). 50 - i)") auto

text \<open>
  \<^verbatim>\<open>return bestResult!\<close>: the assertion is erased at run time, so the value of the
  variable is returned as it is.
\<close>

definition solveForAnnualCost ::
  "IrsDataset option \<Rightarrow> ReverseCalculationInput \<Rightarrow> jsnum \<Rightarrow> error + CalculationProposal option"
where
  "solveForAnnualCost data input flexPct = solve_loop data input flexPct 0 0 1000000 None"

subsection \<open>getProposals\<close>

text \<open>The loop \<^verbatim>\<open>for (let pct = 0; pct <= 30; pct += 5)\<close>.\<close>

function proposals_loop ::
  "IrsDataset option \<Rightarrow> ReverseCalculationInput \<Rightarrow> nat \<Rightarrow> CalculationProposal option list \<Rightarrow>
   error + CalculationProposal option list"
where
  "proposals_loop data input pct proposals =
     (if pct \<le> 30 then
        (let flexPct = (if pct = 0 then Fin 0 else jdiv (Fin (real pct)) (Fin 100)) in
         case solveForAnnualCost data input flexPct of
           Inl e \<Rightarrow> Inl e
         | Inr p \<Rightarrow> proposals_loop data input (pct + 5) (proposals @ [p]))
      else Inr proposals)"
  by pat_completeness auto
termination
  by (relation "measure (\<lambda>(data, input, pct, proposals). 35 - pct)") auto

definition getProposals ::
  "IrsDataset option \<Rightarrow> ReverseCalculationInput \<Rightarrow> error + CalculationProposal option list"
where
  "getProposals data input = proposals_loop data input 0 []"

section \<open>The dataset and inputs of the repository's tests\<close>

text \<open>The mock dataset of the service's unit tests.\<close>

definition simple_bands :: "Band list" where
  "simple_bands =
     [\<lparr> upTo = Some 5000, over = None, rate = 0.1, deduction = Literal 0,
        additionalPerDependent = None \<rparr>]"

definition table_I_bands :: "Band list" where
  "table_I_bands =
     [\<lparr> upTo = Some 920, over = None, rate = 0, deduction = Literal 0,
        additionalPerDependent = None \<rparr>,
      \<lparr> upTo = Some 1042, over = None, rate = 0.125,
        deduction = Formula ''0.125 * 2.60 * (1273.85 - R)'',
        additionalPerDependent = Some 21.43 \<rparr>,
      \<lparr> upTo = None, over = Some 1042, rate = 0.2, deduction = Literal 100,
        additionalPerDependent = None \<rparr>]"

definition mockDataset :: IrsDataset where
  "mockDataset =
     \<lparr> tables =
         [\<lparr> id_t = ''I'', hasDisability = False, bands = table_I_bands \<rparr>,
          \<lparr> id_t = ''II'', hasDisability = False, bands = simple_bands \<rparr>,
          \<lparr> id_t = ''III'', hasDisability = False, bands = simple_bands \<rparr>,
          \<lparr> id_t = ''IV'', hasDisability = True, bands = simple_bands \<rparr>,
          \<lparr> id_t = ''V'', hasDisability = True, bands = simple_bands \<rparr>,
          \<lparr> id_t = ''VI'', hasDisability = True, bands = simple_bands \<rparr>,
          \<lparr> id_t = ''VII'', hasDisability = True, bands = simple_bands \<rparr>] \<rparr>"

section \<open>Error classes and auxiliary inputs\<close>

text \<open>
  The errors that reject the input record itself (the specification's validation
  errors): the three checks at the head of \<^verbatim>\<open>calculate\<close>.
\<close>

fun validation_error :: "error \<Rightarrow> bool" where
  "validation_error GrossSalaryNotPositive = True"
| "validation_error DependentsNotInteger = True"
| "validation_error (LocationNotSupported l) = True"
| "validation_error e = False"

definition input_madeira :: IrsInput where
  "input_madeira = \<lparr> IrsInput.grossSalary = Fin 900, maritalStatus = single, location = madeira,
     dependents = Fin 0, hasDisability = None, socialSecurityRate = None \<rparr>"


section \<open>Band selection: the specification's notions\<close>

text \<open>
  The order of the specification: ascending by \<^verbatim>\<open>upTo\<close>, a band without \<^verbatim>\<open>upTo\<close>
  counting as infinite.
\<close>

definition upTo_le :: "Band \<Rightarrow> Band \<Rightarrow> bool" where
  "upTo_le a b =
     (case upTo b of
        None \<Rightarrow> True
      | Some v \<Rightarrow> (case upTo a of None \<Rightarrow> False | Some u \<Rightarrow> u \<le> v))"

text \<open>A bounded band matches a gross salary when its \<^verbatim>\<open>upTo\<close> is a number at least the salary.\<close>

definition bounded_match :: "jsnum \<Rightarrow> Band \<Rightarrow> bool" where
  "bounded_match g b = (case upTo b of None \<Rightarrow> False | Some u \<Rightarrow> jle g (Fin u))"

text \<open>
  The bands of the specification's example: upper bounds 920 and 1042 and an open band
  over 1042, the other fields arbitrary.
\<close>

definition band_920 :: "real \<Rightarrow> Deduction \<Rightarrow> real option \<Rightarrow> Band" where
  "band_920 r d a = \<lparr> upTo = Some 920, over = None, rate = r, deduction = d, additionalPerDependent = a \<rparr>"

definition band_1042 :: "real \<Rightarrow> Deduction \<Rightarrow> real option \<Rightarrow> Band" where
  "band_1042 r d a = \<lparr> upTo = Some 1042, over = None, rate = r, deduction = d, additionalPerDependent = a \<rparr>"

definition band_over :: "real \<Rightarrow> Deduction \<Rightarrow> real option \<Rightarrow> Band" where
  "band_over r d a = \<lparr> upTo = None, over = Some 1042, rate = r, deduction = d, additionalPerDependent = a \<rparr>"

section \<open>Deduction formulas: the specification's notions\<close>

text \<open>A non-empty run of digits and dots: what a group \<^verbatim>\<open>([0-9.]+)\<close> matches.\<close>

definition numeric_run :: "string \<Rightarrow> bool" where
  "numeric_run s = (s \<noteq> [] \<and> list_all is_numchar s)"


text \<open>The text \<^verbatim>\<open>a*b*(c-R)\<close>, with the letter \<open>r\<close> that stands for the gross salary.\<close>

definition formula_text :: "string \<Rightarrow> string \<Rightarrow> string \<Rightarrow> char \<Rightarrow> string" where
  "formula_text a b c r = a @ ''*'' @ b @ ''*('' @ c @ [CHR ''-'', r, CHR '')'']"



section \<open>The monthly decomposition: the specification's wording\<close>

text \<open>
  The decomposition as the specification words it: taxable budget = annual cost - annual
  meal allowance; de-grossing factor = \<open>(1 - p) * (1 + TSU) + p\<close>; distributable = budget /
  factor; monthly benefit share = distributable * p / 12; gross share = distributable *
  (1 - p); monthly gross = gross share / months to pay over; IHT = monthly gross * IHT% /
  (100 + IHT%); base salary = monthly gross - IHT. TSU is the percentage over 100, as in
  \<^verbatim>\<open>calculateByAnnualCost\<close> of the simulator component, which computes exactly this.
\<close>

definition claimed_monthly_values :: "ReverseCalculationInput \<Rightarrow> jsnum \<Rightarrow> jsnum \<Rightarrow> MonthlyValues" where
  "claimed_monthly_values input annualCost' p =
     (let monthsToPayOver = (if hasDuodecimos input then Fin 12 else Fin 14);
          annualMealAllowance =
            jmul (jmul (mealAllowanceDaily input) (mealAllowanceDays input))
                 (mealAllowanceMonths input);
          budget = jsub annualCost' annualMealAllowance;
          factor = jadd (jmul (jsub (Fin 1) p) (jadd (Fin 1) (jdiv (tsu input) (Fin 100)))) p;
          distributable = jdiv budget factor;
          benefitShare = jdiv (jmul distributable p) (Fin 12);
          grossShare = jmul distributable (jsub (Fin 1) p);
          monthlyGross = jdiv grossShare monthsToPayOver;
          iht = jdiv (jmul monthlyGross (ihtPercentage input)) (jadd (Fin 100) (ihtPercentage input));
          baseSalary = jsub monthlyGross iht
      in \<lparr> monthlyMealAllowance = jmul (mealAllowanceDaily input) (mealAllowanceDays input),
           monthlyValueToBenefits = benefitShare,
           monthlyIHT = iht,
           monthlyBaseSalary = baseSalary,
           grossSalary = monthlyGross \<rparr>)"

text \<open>The input of the first test of the reverse solver.\<close>

definition reverse_test_input :: ReverseCalculationInput where
  "reverse_test_input =
     \<lparr> targetNetSalary = Fin 1500, location = continente, maritalStatus = single,
       dependents = Fin 0, hasDuodecimos = False, mealAllowanceDaily = Fin 10,
       mealAllowanceDays = Fin 22, mealAllowanceMonths = Fin 11, ihtPercentage = Fin 25,
       tsu = Fin 23.75, ssRate = Fin 0.11 \<rparr>"

section \<open>The binary search: the specification's notions\<close>

text \<open>
  The bounds after \<open>k\<close> iterations as the specification words them: they start at 0 and
  1000000; each iteration computes the max-net scenario at the midpoint, raises the lower
  bound to the midpoint when that max net salary is below the target and lowers the upper
  bound to the midpoint otherwise (an iteration whose scenario fails leaves them as they
  are: the call has ended there).
\<close>

primrec search_bounds ::
  "IrsDataset option \<Rightarrow> ReverseCalculationInput \<Rightarrow> jsnum \<Rightarrow> nat \<Rightarrow> real \<times> real"
where
  "search_bounds data input flexPct 0 = (0, 1000000)"
| "search_bounds data input flexPct (Suc k) =
     (let (low, high) = search_bounds data input flexPct k;
          mid = (low + high) / 2
      in case calculateOutputs data input (Fin mid) flexPct of
           Inr result \<Rightarrow>
             if jlt (totalNetMax result) (targetNetSalary input) then (mid, high) else (low, mid)
         | Inl e \<Rightarrow> (low, high))"

text \<open>The midpoint probed by iteration \<open>k\<close> (counted from 0), and the scenario computed there.\<close>

definition midpoint :: "IrsDataset option \<Rightarrow> ReverseCalculationInput \<Rightarrow> jsnum \<Rightarrow> nat \<Rightarrow> real" where
  "midpoint data input flexPct k =
     (fst (search_bounds data input flexPct k) + snd (search_bounds data input flexPct k)) / 2"

definition probe ::
  "IrsDataset option \<Rightarrow> ReverseCalculationInput \<Rightarrow> jsnum \<Rightarrow> nat \<Rightarrow> error + CalculationProposal"
where
  "probe data input flexPct k = calculateOutputs data input (Fin (midpoint data input flexPct k)) flexPct"

section \<open>Auxiliary notions for the proofs\<close>

text \<open>\<open>round2\<close> on a finite number.\<close>

definition cents :: "real \<Rightarrow> real" where
  "cents x = of_int \<lfloor>(x + EPSILON) * 100 + 1 / 2\<rfloor> / 100"

text \<open>The input of a single person without dependents, as the reverse solver builds it.\<close>

definition single_input :: "real \<Rightarrow> jsnum \<Rightarrow> IrsInput" where
  "single_input g ssr =
     \<lparr> IrsInput.grossSalary = Fin g, maritalStatus = single, location = continente,
       dependents = Fin 0, hasDisability = None, socialSecurityRate = Some ssr \<rparr>"

text \<open>The reverse solver's test input with another target and daily meal allowance.\<close>

definition test_input_with :: "jsnum \<Rightarrow> real \<Rightarrow> ReverseCalculationInput" where
  "test_input_with t d = reverse_test_input \<lparr> targetNetSalary := t, mealAllowanceDaily := Fin d \<rparr>"

text \<open>The \<^verbatim>\<open>flexPct\<close> that \<^verbatim>\<open>getProposals\<close> passes for the loop variable \<^verbatim>\<open>pct\<close>.\<close>

definition flexPct_of :: "nat \<Rightarrow> jsnum" where
  "flexPct_of pct = (if pct = 0 then Fin 0 else jdiv (Fin (real pct)) (Fin 100))"

text \<open>The annual meal allowance: daily times days times months.\<close>

definition annual_meal :: "ReverseCalculationInput \<Rightarrow> jsnum" where
  "annual_meal input =
     jmul (jmul (mealAllowanceDaily input) (mealAllowanceDays input)) (mealAllowanceMonths input)"

text \<open>Zero or NaN: the values that fail the check \<^verbatim>\<open>grossSalary <= 0 || !isFinite\<close> at once.\<close>

definition zero_or_nan :: "jsnum \<Rightarrow> bool" where
  "zero_or_nan x = (x = Fin 0 \<or> x = NaN)"

text \<open>A target of 0 with a positive meal allowance below every midpoint the search can probe.\<close>

definition tiny_meal_input :: ReverseCalculationInput where
  "tiny_meal_input = test_input_with (Fin 0) (1 / 10 ^ 15)"

section \<open>Rounding to cents\<close>

lemma jsub_Fin [simp]: "jsub (Fin a) (Fin b) = Fin (a - b)"
  by (simp add: jsub_def)

lemma round2_Fin: "round2 (Fin a) = Fin (of_int \<lfloor>(a + EPSILON) * 100 + 1 / 2\<rfloor> / 100)"
  by (simp add: round2_def)

lemma round2_nonfinite [simp]: "round2 PInf = PInf" "round2 NInf = NInf" "round2 NaN = NaN"
  by (simp_all add: round2_def scale_inf_def)

lemma round2_zero [simp]: "round2 (Fin 0) = Fin 0"
  by (simp add: round2_Fin EPSILON_def)

lemma round2_mono:
  assumes "a \<le> b"
  shows "(of_int \<lfloor>(a + EPSILON) * 100 + 1 / 2\<rfloor> / 100 :: real)
           \<le> of_int \<lfloor>(b + EPSILON) * 100 + 1 / 2\<rfloor> / 100"
proof -
  have "(a + EPSILON) * 100 + 1 / 2 \<le> (b + EPSILON) * 100 + 1 / 2"
    using assms by simp
  then have "\<lfloor>(a + EPSILON) * 100 + 1 / 2\<rfloor> \<le> \<lfloor>(b + EPSILON) * 100 + 1 / 2\<rfloor>"
    by (rule floor_mono)
  then show ?thesis by (simp add: divide_right_mono)
qed

lemma round2_real_zero: "(of_int \<lfloor>(0 + EPSILON) * 100 + 1 / 2\<rfloor> / 100 :: real) = 0"
  by (simp add: EPSILON_def)


section \<open>Table selection\<close>

text \<open>
  C3. Table selection is a total function of marital status, dependents and disability.
  Without disability, married-one-holder gives table III, and single or
  married-two-holders gives II when dependents \<open>\<ge> 1\<close> and I otherwise. With disability,
  married-one-holder gives VII, married-two-holders gives VI when dependents \<open>\<ge> 1\<close> and
  IV otherwise, single gives V when dependents \<open>\<ge> 1\<close> and IV otherwise. Every
  combination gives one of the seven ids I to VII.
\<close>

theorem pickTableId_total:
  "pickTableId married_one_holder d False = ''III''
   \<and> pickTableId single d False = (if jle (Fin 1) d then ''II'' else ''I'')
   \<and> pickTableId married_two_holders d False = (if jle (Fin 1) d then ''II'' else ''I'')
   \<and> pickTableId married_one_holder d True = ''VII''
   \<and> pickTableId married_two_holders d True = (if jle (Fin 1) d then ''VI'' else ''IV'')
   \<and> pickTableId single d True = (if jle (Fin 1) d then ''V'' else ''IV'')
   \<and> pickTableId m d h \<in> set [''I'', ''II'', ''III'', ''IV'', ''V'', ''VI'', ''VII'']"
  by (simp add: pickTableId_def)

section \<open>Validation\<close>

lemma pickBand_error: "pickBand bs g = Inl e \<Longrightarrow> e = NoMatchingBand"
  by (auto simp add: pickBand_def Let_def split: option.splits)

lemma resolveDeduction_error:
  "resolveDeduction d R = Inl e \<Longrightarrow>
     e \<in> {InvalidDeductionField} \<union> range UnsupportedFormula \<union> range InvalidFormulaNumbers"
  by (auto simp add: resolveDeduction_def Let_def split: Deduction.splits option.splits if_splits)

lemma dependents_check:
  "(jlt d (Fin 0) \<or> \<not> isInteger d) = (\<not> (isInteger d \<and> jle (Fin 0) d))"
  by (cases d) auto

lemma calculate_valid:
  assumes "\<not> jle (IrsInput.grossSalary input) (Fin 0)"
    and "isFinite (IrsInput.grossSalary input)"
    and "\<not> jlt (IrsInput.dependents input) (Fin 0)"
    and "isInteger (IrsInput.dependents input)"
    and "IrsInput.location input = continente"
  shows "calculate (Some ds) input =
    (case find (\<lambda>t. id_t t = pickTableId (IrsInput.maritalStatus input) (IrsInput.dependents input)
                   (case IrsInput.hasDisability input of None \<Rightarrow> False | Some h \<Rightarrow> h)) (tables ds) of
       None \<Rightarrow> Inl (TableNotFound (pickTableId (IrsInput.maritalStatus input) (IrsInput.dependents input)
                   (case IrsInput.hasDisability input of None \<Rightarrow> False | Some h \<Rightarrow> h)))
     | Some table \<Rightarrow>
        (case pickBand (bands table) (IrsInput.grossSalary input) of
           Inl e \<Rightarrow> Inl e
         | Inr b \<Rightarrow>
            (case resolveDeduction (Band.deduction b) (IrsInput.grossSalary input) of
               Inl e \<Rightarrow> Inl e
             | Inr d \<Rightarrow>
                Inr \<lparr> tableId = pickTableId (IrsInput.maritalStatus input) (IrsInput.dependents input)
                         (case IrsInput.hasDisability input of None \<Rightarrow> False | Some h \<Rightarrow> h),
                      band = b,
                      rate = Band.rate b,
                      deduction = round2 d,
                      additionalPerDependent =
                        round2 (Fin (case Band.additionalPerDependent b of None \<Rightarrow> 0 | Some a \<Rightarrow> a)),
                      irsWithheld =
                        round2 (jmax (Fin 0)
                          (jsub (jsub (jmul (IrsInput.grossSalary input) (Fin (Band.rate b))) d)
                             (jmul (Fin (case Band.additionalPerDependent b of None \<Rightarrow> 0 | Some a \<Rightarrow> a))
                                (IrsInput.dependents input)))),
                      socialSecurity =
                        round2 (jmul (IrsInput.grossSalary input)
                          (case IrsInput.socialSecurityRate input of None \<Rightarrow> Fin 0.11 | Some r \<Rightarrow> r)),
                      netSalary =
                        round2 (jsub (jsub (IrsInput.grossSalary input)
                          (round2 (jmax (Fin 0)
                            (jsub (jsub (jmul (IrsInput.grossSalary input) (Fin (Band.rate b))) d)
                               (jmul (Fin (case Band.additionalPerDependent b of None \<Rightarrow> 0 | Some a \<Rightarrow> a))
                                  (IrsInput.dependents input))))))
                          (round2 (jmul (IrsInput.grossSalary input)
                            (case IrsInput.socialSecurityRate input of None \<Rightarrow> Fin 0.11 | Some r \<Rightarrow> r)))) \<rparr>)))"
  using assms by (simp add: calculate_def Let_def split: option.splits sum.splits)

lemma calculate_valid_error:
  assumes "\<not> jle (IrsInput.grossSalary input) (Fin 0)"
    and "isFinite (IrsInput.grossSalary input)"
    and "\<not> jlt (IrsInput.dependents input) (Fin 0)"
    and "isInteger (IrsInput.dependents input)"
    and "IrsInput.location input = continente"
    and "calculate (Some ds) input = Inl e"
  shows "\<not> validation_error e"
proof -
  note eq = calculate_valid [OF assms(1-5), of ds]
  show ?thesis
  proof (cases "find (\<lambda>t. id_t t = pickTableId (IrsInput.maritalStatus input) (IrsInput.dependents input)
                   (case IrsInput.hasDisability input of None \<Rightarrow> False | Some h \<Rightarrow> h)) (tables ds)")
    case None
    with eq assms(6) show ?thesis by auto
  next
    case (Some table)
    show ?thesis
    proof (cases "pickBand (bands table) (IrsInput.grossSalary input)")
      case (Inl e')
      with eq Some assms(6) have "e = e'" by simp
      with Inl pickBand_error show ?thesis by fastforce
    next
      case (Inr b)
      show ?thesis
      proof (cases "resolveDeduction (Band.deduction b) (IrsInput.grossSalary input)")
        case (Inl e')
        with eq Some Inr assms(6) have "e = e'" by simp
        with Inl resolveDeduction_error [of "Band.deduction b" "IrsInput.grossSalary input" e] show ?thesis
          by auto
      next
        case (Inr d)
        with eq Some \<open>pickBand (bands table) (IrsInput.grossSalary input) = Inr b\<close> assms(6)
        show ?thesis by simp
      qed
    qed
  qed
qed

text \<open>
  C7. Without a dataset \<open>calculate\<close> fails. With a dataset it fails with a validation
  error exactly when the gross salary is not finite or is at most 0, or dependents is not
  a non-negative integer, or the location is not continente: no invalid input gets a
  result.
\<close>

theorem calculate_validation:
  "calculate None input = Inl DatasetNotSet
   \<and> ((\<exists>e. calculate (Some ds) input = Inl e \<and> validation_error e) \<longleftrightarrow>
        (jle (IrsInput.grossSalary input) (Fin 0) \<or> \<not> isFinite (IrsInput.grossSalary input)
         \<or> \<not> (isInteger (IrsInput.dependents input) \<and> jle (Fin 0) (IrsInput.dependents input))
         \<or> IrsInput.location input \<noteq> continente))"
proof -
  have none: "calculate None input = Inl DatasetNotSet"
    by (simp add: calculate_def)
  let ?invalid = "jle (IrsInput.grossSalary input) (Fin 0) \<or> \<not> isFinite (IrsInput.grossSalary input)
         \<or> \<not> (isInteger (IrsInput.dependents input) \<and> jle (Fin 0) (IrsInput.dependents input))
         \<or> IrsInput.location input \<noteq> continente"
  have a: "\<exists>e. calculate (Some ds) input = Inl e \<and> validation_error e" if ?invalid
    using that by (auto simp add: calculate_def Let_def dependents_check)
  have b: ?invalid if "calculate (Some ds) input = Inl e" "validation_error e" for e
    using calculate_valid_error [of input ds e] that dependents_check [of "IrsInput.dependents input"]
    by blast
  from none a b show ?thesis by blast
qed

theorem calculate_validation_witness:
  "\<exists>e. calculate (Some mockDataset) input_madeira = Inl e \<and> validation_error e"
  using calculate_validation [of input_madeira mockDataset]
  by (simp add: input_madeira_def)

section \<open>The withholding formula\<close>




lemma sort_table_I: "sort_bands table_I_bands = table_I_bands"
  by (simp add: sort_bands_def table_I_bands_def band_compare_def jsub_def)


lemma number_evals:
  "Number ''0.125'' = Fin 0.125" "Number ''2.60'' = Fin 2.6" "Number ''1273.85'' = Fin 1273.85"
  by (simp_all add: Number_def digits_val_def digit_val_def)

lemma formula_match:
  "match_formula (strip_spaces ''0.125 * 2.60 * (1273.85 - R)'') = Some (''0.125'', ''2.60'', ''1273.85'')"
  by (simp add: match_formula_def strip_spaces_def is_space_def is_numchar_def)



section \<open>Band selection\<close>

lemma compare_positive: "jlt (Fin 0) (band_compare y x) = (\<not> upTo_le y x)"
  by (auto simp add: band_compare_def upTo_le_def jsub_def split: option.splits)

lemma upTo_le_refl: "upTo_le a a"
  by (simp add: upTo_le_def split: option.splits)

lemma upTo_le_total: "upTo_le a b \<or> upTo_le b a"
  by (auto simp add: upTo_le_def split: option.splits)

lemma upTo_le_trans: "upTo_le a b \<Longrightarrow> upTo_le b c \<Longrightarrow> upTo_le a c"
  by (auto simp add: upTo_le_def split: option.splits)

lemma mset_insert_band: "mset (insert_band x ys) = add_mset x (mset ys)"
  by (induction ys) simp_all

lemma set_insert_band: "set (insert_band x ys) = insert x (set ys)"
  by (induction ys) auto

lemma sorted_insert_band:
  "sorted_wrt upTo_le ys \<Longrightarrow> sorted_wrt upTo_le (insert_band x ys)"
proof (induction ys)
  case Nil
  then show ?case by simp
next
  case (Cons y ys)
  show ?case
  proof (cases "upTo_le y x")
    case True
    with Cons show ?thesis
      by (auto simp add: compare_positive set_insert_band)
  next
    case False
    then have xy: "upTo_le x y" using upTo_le_total by blast
    with Cons.prems have "\<forall>z\<in>set ys. upTo_le x z"
      by (auto intro: upTo_le_trans)
    with False xy Cons.prems show ?thesis
      by (simp add: compare_positive)
  qed
qed

lemma foldl_insert_mset:
  "mset (foldl (\<lambda>acc x. insert_band x acc) acc bs) = mset acc + mset bs"
  by (induction bs arbitrary: acc) (simp_all add: mset_insert_band)

lemma foldl_insert_sorted:
  "sorted_wrt upTo_le acc \<Longrightarrow> sorted_wrt upTo_le (foldl (\<lambda>acc x. insert_band x acc) acc bs)"
  by (induction bs arbitrary: acc) (simp_all add: sorted_insert_band)

lemma mset_sort_bands: "mset (sort_bands bs) = mset bs"
  by (simp add: sort_bands_def foldl_insert_mset)

lemma set_sort_bands: "set (sort_bands bs) = set bs"
  using mset_sort_bands [of bs] by (metis set_mset_mset)

lemma sorted_sort_bands: "sorted_wrt upTo_le (sort_bands bs)"
  by (simp add: sort_bands_def foldl_insert_sorted)

lemma scan_bands_find: "scan_bands s g = find (bounded_match g) s"
  by (induction s) (simp_all add: bounded_match_def split: option.splits)

lemma find_sorted_least:
  "sorted_wrt upTo_le s \<Longrightarrow> find P s = Some b \<Longrightarrow> b' \<in> set s \<Longrightarrow> P b' \<Longrightarrow> upTo_le b b'"
proof (induction s)
  case Nil
  then show ?case by simp
next
  case (Cons y ys)
  show ?case
  proof (cases "P y")
    case True
    with Cons.prems have "b = y" by simp
    with Cons.prems show ?thesis by (auto simp add: upTo_le_refl)
  next
    case False
    with Cons show ?thesis by auto
  qed
qed

lemma pickBand_find:
  "pickBand bs g =
     (case find (bounded_match g) (sort_bands bs) of
        Some b \<Rightarrow> Inr b
      | None \<Rightarrow>
          (case find (\<lambda>b. over b \<noteq> None) (sort_bands bs) of
             Some b \<Rightarrow> Inr b
           | None \<Rightarrow> Inl NoMatchingBand))"
  by (simp add: pickBand_def scan_bands_find split: option.splits)

lemma pickBand_fails:
  "(pickBand bs g = Inl e) = (e = NoMatchingBand \<and> (\<forall>b\<in>set bs. \<not> bounded_match g b \<and> over b = None))"
proof -
  have a: "(find (bounded_match g) (sort_bands bs) = None) = (\<forall>b\<in>set bs. \<not> bounded_match g b)"
    by (auto simp add: find_None_iff set_sort_bands)
  have b: "(find (\<lambda>b. over b \<noteq> None) (sort_bands bs) = None) = (\<forall>b\<in>set bs. over b = None)"
    by (auto simp add: find_None_iff set_sort_bands)
  show ?thesis
  proof (cases "find (bounded_match g) (sort_bands bs)")
    case None
    show ?thesis
    proof (cases "find (\<lambda>b. over b \<noteq> None) (sort_bands bs)")
      case None
      with \<open>find (bounded_match g) (sort_bands bs) = None\<close> a b show ?thesis
        unfolding pickBand_find by auto
    next
      case (Some ob)
      with \<open>find (bounded_match g) (sort_bands bs) = None\<close> a b show ?thesis
        unfolding pickBand_find by auto
    qed
  next
    case (Some bb)
    with a show ?thesis
      unfolding pickBand_find by auto
  qed
qed


lemma pickBand_least:
  assumes "pickBand bs g = Inr b" "bounded_match g b" "b' \<in> set bs" "bounded_match g b'"
  shows "upTo_le b b'"
proof (cases "find (bounded_match g) (sort_bands bs)")
  case None
  with assms(3,4) show ?thesis
    by (auto simp add: find_None_iff set_sort_bands)
next
  case (Some b0)
  with assms(1) have "b0 = b" unfolding pickBand_find by simp
  with Some find_sorted_least [OF sorted_sort_bands, of "bounded_match g" bs b b'] assms(3,4)
  show ?thesis by (simp add: set_sort_bands)
qed

lemma sort_three:
  "sort_bands [band_920 r1 d1 a1, band_1042 r2 d2 a2, band_over r3 d3 a3]
     = [band_920 r1 d1 a1, band_1042 r2 d2 a2, band_over r3 d3 a3]"
  "sort_bands [band_over r3 d3 a3, band_1042 r2 d2 a2, band_920 r1 d1 a1]
     = [band_920 r1 d1 a1, band_1042 r2 d2 a2, band_over r3 d3 a3]"
  by (simp_all add: sort_bands_def compare_positive upTo_le_def band_920_def band_1042_def band_over_def)

lemma pick_three:
  assumes "sort_bands bs = [band_920 r1 d1 a1, band_1042 r2 d2 a2, band_over r3 d3 a3]"
  shows "pickBand bs (Fin 920) = Inr (band_920 r1 d1 a1)"
    and "pickBand bs (Fin 921) = Inr (band_1042 r2 d2 a2)"
    and "pickBand bs (Fin 1500) = Inr (band_over r3 d3 a3)"
  unfolding pickBand_def assms
  by (simp_all add: band_920_def band_1042_def band_over_def)

text \<open>
  C4. Band selection sorts the bands ascending by \<^verbatim>\<open>upTo\<close> (a band without \<^verbatim>\<open>upTo\<close>
  last, as if infinite; the sorted list is a permutation of the table's bands), returns
  the first band in that order whose \<^verbatim>\<open>upTo\<close> is a number at least the gross salary
  (hence one of least \<^verbatim>\<open>upTo\<close> among the matching bands), otherwise the first band
  carrying \<^verbatim>\<open>over\<close>, and fails, with the no-matching-band error, exactly when no bounded
  band matches and no band carries \<^verbatim>\<open>over\<close>. For the bands with upper bounds 920 and
  1042 and an open band over 1042, in either order, 920 selects the first band, 921 the
  second and 1500 the open band.
\<close>

theorem pickBand_selection:
  "mset (sort_bands bs) = mset bs
   \<and> sorted_wrt upTo_le (sort_bands bs)
   \<and> pickBand bs g =
       (case find (bounded_match g) (sort_bands bs) of
          Some b \<Rightarrow> Inr b
        | None \<Rightarrow>
            (case find (\<lambda>b. over b \<noteq> None) (sort_bands bs) of
               Some b \<Rightarrow> Inr b
             | None \<Rightarrow> Inl NoMatchingBand))
   \<and> (\<forall>b. pickBand bs g = Inr b \<and> bounded_match g b \<longrightarrow>
          (\<forall>b'\<in>set bs. bounded_match g b' \<longrightarrow> upTo_le b b'))
   \<and> (\<forall>e. (pickBand bs g = Inl e) =
          (e = NoMatchingBand \<and> (\<forall>b\<in>set bs. \<not> bounded_match g b \<and> over b = None)))
   \<and> (\<forall>t\<in>{[band_920 r1 d1 a1, band_1042 r2 d2 a2, band_over r3 d3 a3],
            [band_over r3 d3 a3, band_1042 r2 d2 a2, band_920 r1 d1 a1]}.
          pickBand t (Fin 920) = Inr (band_920 r1 d1 a1)
          \<and> pickBand t (Fin 921) = Inr (band_1042 r2 d2 a2)
          \<and> pickBand t (Fin 1500) = Inr (band_over r3 d3 a3))"
proof (intro conjI)
  show "mset (sort_bands bs) = mset bs" by (rule mset_sort_bands)
  show "sorted_wrt upTo_le (sort_bands bs)" by (rule sorted_sort_bands)
  show "pickBand bs g =
       (case find (bounded_match g) (sort_bands bs) of
          Some b \<Rightarrow> Inr b
        | None \<Rightarrow>
            (case find (\<lambda>b. over b \<noteq> None) (sort_bands bs) of
               Some b \<Rightarrow> Inr b
             | None \<Rightarrow> Inl NoMatchingBand))"
    by (rule pickBand_find)
  show "\<forall>b. pickBand bs g = Inr b \<and> bounded_match g b \<longrightarrow>
          (\<forall>b'\<in>set bs. bounded_match g b' \<longrightarrow> upTo_le b b')"
    using pickBand_least by blast
  show "\<forall>e. (pickBand bs g = Inl e) =
          (e = NoMatchingBand \<and> (\<forall>b\<in>set bs. \<not> bounded_match g b \<and> over b = None))"
    using pickBand_fails by blast
  show "\<forall>t\<in>{[band_920 r1 d1 a1, band_1042 r2 d2 a2, band_over r3 d3 a3],
            [band_over r3 d3 a3, band_1042 r2 d2 a2, band_920 r1 d1 a1]}.
          pickBand t (Fin 920) = Inr (band_920 r1 d1 a1)
          \<and> pickBand t (Fin 921) = Inr (band_1042 r2 d2 a2)
          \<and> pickBand t (Fin 1500) = Inr (band_over r3 d3 a3)"
    using pick_three [OF sort_three(1)] pick_three [OF sort_three(2)] by simp
qed

theorem pickBand_selection_witness:
  "pickBand simple_bands (Fin 6000) = Inl NoMatchingBand
   \<and> pickBand table_I_bands (Fin 921) = Inr (band_1042 0.125 (Formula ''0.125 * 2.60 * (1273.85 - R)'') (Some 21.43))"
proof -
  have a: "\<forall>b\<in>set simple_bands. \<not> bounded_match (Fin 6000) b \<and> over b = None"
    by (simp add: simple_bands_def bounded_match_def)
  have b: "table_I_bands = [band_920 0 (Literal 0) None,
      band_1042 0.125 (Formula ''0.125 * 2.60 * (1273.85 - R)'') (Some 21.43),
      band_over 0.2 (Literal 100) None]"
    by (simp add: table_I_bands_def band_920_def band_1042_def band_over_def)
  from pickBand_selection [of simple_bands "Fin 6000"] a
  have "pickBand simple_bands (Fin 6000) = Inl NoMatchingBand" by blast
  moreover from pickBand_selection [of "[]" "Fin 0" 0 "Literal 0" None "0.125"
      "Formula ''0.125 * 2.60 * (1273.85 - R)''" "Some 21.43" "0.2" "Literal 100" None]
  have "pickBand table_I_bands (Fin 921) = Inr (band_1042 0.125 (Formula ''0.125 * 2.60 * (1273.85 - R)'') (Some 21.43))"
    unfolding b by blast
  ultimately show ?thesis by simp
qed

section \<open>Deduction resolution\<close>

lemma takeWhile_run:
  assumes "list_all P a" "\<not> P x"
  shows "takeWhile P (a @ x # rest) = a" "dropWhile P (a @ x # rest) = x # rest"
  using assms by (induction a) simp_all

lemma match_formula_complete:
  assumes "numeric_run a" "numeric_run b" "numeric_run c" "r = CHR ''R'' \<or> r = CHR ''r''"
  shows "match_formula (formula_text a b c r) = Some (a, b, c)"
proof -
  have star: "\<not> is_numchar CHR ''*''" and minus: "\<not> is_numchar CHR ''-''"
    by (simp_all add: is_numchar_def)
  from assms have a: "list_all is_numchar a" "a \<noteq> []" and b: "list_all is_numchar b" "b \<noteq> []"
    and c: "list_all is_numchar c" "c \<noteq> []"
    by (simp_all add: numeric_run_def)
  have 1: "formula_text a b c r = a @ CHR ''*'' # (b @ CHR ''*'' # (CHR ''('' # (c @ CHR ''-'' # [r, CHR '')''])))"
    by (simp add: formula_text_def)
  show ?thesis
    unfolding match_formula_def 1 Let_def takeWhile_run [OF a(1) star]
    using a(2) b(2) c(2) assms(4)
    by (simp add: takeWhile_run [OF b(1) star] takeWhile_run [OF c(1) minus])
qed

lemma take_eq_append:
  assumes "take n xs = ys" "length ys = n"
  shows "xs = ys @ drop n xs"
  using assms append_take_drop_id [of n xs] by simp

lemma match_formula_sound:
  assumes "match_formula s = Some (a, b, c)"
  shows "numeric_run a \<and> numeric_run b \<and> numeric_run c
         \<and> (s = formula_text a b c CHR ''R'' \<or> s = formula_text a b c CHR ''r'')"
proof -
  define r1 where "r1 = dropWhile is_numchar s"
  define s1 where "s1 = drop 1 r1"
  define r2 where "r2 = dropWhile is_numchar s1"
  define s2 where "s2 = drop 2 r2"
  define r3 where "r3 = dropWhile is_numchar s2"
  from assms have a: "a = takeWhile is_numchar s" "a \<noteq> []" and t1: "take 1 r1 = ''*''"
    and b: "b = takeWhile is_numchar s1" "b \<noteq> []" and t2: "take 2 r2 = ''*(''"
    and c: "c = takeWhile is_numchar s2" "c \<noteq> []" and t3: "r3 = ''-R)'' \<or> r3 = ''-r)''"
    unfolding r1_def s1_def r2_def s2_def r3_def
    by (auto simp add: match_formula_def Let_def split: if_splits)
  have "s = a @ r1" by (simp add: a r1_def)
  also have "r1 = ''*'' @ s1" unfolding s1_def using t1 by (intro take_eq_append) simp_all
  also have "s1 = b @ r2" by (simp add: b r2_def)
  also have "r2 = ''*('' @ s2" unfolding s2_def using t2 by (intro take_eq_append) simp_all
  also have "s2 = c @ r3" by (simp add: c r3_def)
  finally have s: "s = a @ ''*'' @ b @ ''*('' @ c @ r3" .
  have runs: "numeric_run a" "numeric_run b" "numeric_run c"
    using a(2) b(2) c(2) unfolding a(1) b(1) c(1) numeric_run_def list_all_iff
    by (auto dest: set_takeWhileD)
  from t3 s have "s = formula_text a b c CHR ''R'' \<or> s = formula_text a b c CHR ''r''"
    by (auto simp add: formula_text_def)
  with runs show ?thesis by simp
qed

lemma match_formula_iff:
  "(match_formula s = Some (a, b, c)) =
     (numeric_run a \<and> numeric_run b \<and> numeric_run c
      \<and> (s = formula_text a b c CHR ''R'' \<or> s = formula_text a b c CHR ''r''))"
  using match_formula_sound [of s a b c] match_formula_complete [of a b c] by auto






lemma dot_filter: "(length (filter (\<lambda>c. c = CHR ''.'') s) = 0) = (CHR ''.'' \<notin> set s)"
  by (induction s) auto









section \<open>The monthly decomposition of the reverse solver\<close>

lemma pick_over:
  assumes "1042 < g"
  shows "pickBand table_I_bands (Fin g) = Inr (table_I_bands ! 2)"
  unfolding pickBand_def sort_table_I using assms by (simp add: table_I_bands_def)

lemma calculate_table_I_over:
  assumes "1042 < g"
  shows "calculate (Some mockDataset)
           \<lparr> IrsInput.grossSalary = Fin g, maritalStatus = single, location = continente,
             dependents = Fin 0, hasDisability = None, socialSecurityRate = Some (Fin s) \<rparr>
         = Inr \<lparr> tableId = ''I'', band = table_I_bands ! 2, rate = 0.2, deduction = Fin 100,
                 additionalPerDependent = Fin 0,
                 irsWithheld = round2 (jmax (Fin 0) (Fin (g * 0.2 - 100))),
                 socialSecurity = round2 (Fin (g * s)),
                 netSalary = round2 (jsub (jsub (Fin g) (round2 (jmax (Fin 0) (Fin (g * 0.2 - 100)))))
                                (round2 (Fin (g * s)))) \<rparr>"
proof -
  have tab: "find (\<lambda>t. id_t t = ''I'') (tables mockDataset)
      = Some \<lparr> id_t = ''I'', hasDisability = False, bands = table_I_bands \<rparr>"
    by (simp add: mockDataset_def)
  have r100: "round2 (Fin 100) = Fin 100"
    by (simp add: round2_Fin EPSILON_def)
  have b: "Band.rate (table_I_bands ! 2) = 0.2" "Band.deduction (table_I_bands ! 2) = Literal 100"
    "Band.additionalPerDependent (table_I_bands ! 2) = None"
    by (simp_all add: table_I_bands_def)
  show ?thesis
    using assms
    by (subst calculate_valid)
       (simp_all add: pickTableId_def tab pick_over resolveDeduction_def b r100)
qed

text \<open>
  C2 does not hold of the code. At the test input, annual cost 40000 and benefit
  percentage 0.1, \<^verbatim>\<open>calculateOutputs\<close> divides the clamped budget by \<open>1 + TSU\<close> alone,
  takes the monthly gross as \<open>total / 14 - total * p / 12\<close> and the IHT as
  \<open>gross * IHT% / 100\<close>; the claimed decomposition gives other values for the benefit
  share, the IHT, the base salary and the gross salary.
\<close>

theorem calculateOutputs_decomposition:
  "monthly_values reverse_test_input (Fin 40000) (Fin 0.1) =
     \<lparr> monthlyMealAllowance = Fin 220, monthlyValueToBenefits = Fin (75160 / 297),
       monthlyIHT = Fin (995870 / 2079), monthlyBaseSalary = Fin (995870 / 693),
       grossSalary = Fin (3983480 / 2079) \<rparr>
   \<and> claimed_monthly_values reverse_test_input (Fin 40000) (Fin 0.1) =
     \<lparr> monthlyMealAllowance = Fin 220, monthlyValueToBenefits = Fin (751600 / 2913),
       monthlyIHT = Fin (2705760 / 6797), monthlyBaseSalary = Fin (10823040 / 6797),
       grossSalary = Fin (13528800 / 6797) \<rparr>
   \<and> map_sum id (\<lambda>r. (monthlyBenefits r, CalculationProposal.monthlyIHT r,
                       CalculationProposal.monthlyBaseSalary r))
        (calculateOutputs (Some mockDataset) reverse_test_input (Fin 40000) (Fin 0.1))
      = Inr (Fin (75160 / 297), Fin (995870 / 2079), Fin (995870 / 693))"
proof (intro conjI)
  show mv: "monthly_values reverse_test_input (Fin 40000) (Fin 0.1) =
     \<lparr> monthlyMealAllowance = Fin 220, monthlyValueToBenefits = Fin (75160 / 297),
       monthlyIHT = Fin (995870 / 2079), monthlyBaseSalary = Fin (995870 / 693),
       grossSalary = Fin (3983480 / 2079) \<rparr>"
    by (simp add: monthly_values_def reverse_test_input_def)
  show "claimed_monthly_values reverse_test_input (Fin 40000) (Fin 0.1) =
     \<lparr> monthlyMealAllowance = Fin 220, monthlyValueToBenefits = Fin (751600 / 2913),
       monthlyIHT = Fin (2705760 / 6797), monthlyBaseSalary = Fin (10823040 / 6797),
       grossSalary = Fin (13528800 / 6797) \<rparr>"
    by (simp add: claimed_monthly_values_def reverse_test_input_def)
  have sel: "ReverseCalculationInput.maritalStatus reverse_test_input = single"
    "ReverseCalculationInput.location reverse_test_input = continente"
    "ReverseCalculationInput.dependents reverse_test_input = Fin 0"
    "ssRate reverse_test_input = Fin 0.11"
    by (simp_all add: reverse_test_input_def)
  show "map_sum id (\<lambda>r. (monthlyBenefits r, CalculationProposal.monthlyIHT r,
                       CalculationProposal.monthlyBaseSalary r))
        (calculateOutputs (Some mockDataset) reverse_test_input (Fin 40000) (Fin 0.1))
      = Inr (Fin (75160 / 297), Fin (995870 / 2079), Fin (995870 / 693))"
    unfolding calculateOutputs_def mv Let_def sel
    by (simp add: calculate_table_I_over)
qed

section \<open>Properties of the reverse solver\<close>

lemma search_bounds_Suc:
  assumes "search_bounds data input flexPct k = (low, high)"
  shows "search_bounds data input flexPct (Suc k) =
     (case probe data input flexPct k of
        Inr result \<Rightarrow>
          if jlt (totalNetMax result) (targetNetSalary input) then ((low + high) / 2, high)
          else (low, (low + high) / 2)
      | Inl e \<Rightarrow> (low, high))"
  by (simp add: assms probe_def midpoint_def Let_def)

lemma search_bounds_invariant:
  "0 \<le> fst (search_bounds data input flexPct k)
   \<and> 1000000 / 2 ^ k \<le> snd (search_bounds data input flexPct k) - fst (search_bounds data input flexPct k)
   \<and> snd (search_bounds data input flexPct k) \<le> 1000000"
proof (induction k)
  case 0
  show ?case by simp
next
  case (Suc k)
  obtain low high where lh: "search_bounds data input flexPct k = (low, high)"
    by (cases "search_bounds data input flexPct k")
  define W :: real where "W = 1000000 / 2 ^ k"
  from Suc lh have l: "0 \<le> low" and w: "W \<le> high - low" and h: "high \<le> 1000000"
    by (simp_all add: W_def)
  have pos: "0 \<le> W" by (simp add: W_def)
  have half: "(1000000::real) / 2 ^ Suc k = W / 2" by (simp add: W_def)
  show ?case
  proof (cases "probe data input flexPct k")
    case (Inl e)
    have "W / 2 \<le> high - low" using pos w by simp
    with l h show ?thesis
      unfolding search_bounds_Suc [OF lh] Inl half by simp
  next
    case (Inr result)
    show ?thesis
    proof (cases "jlt (totalNetMax result) (targetNetSalary input)")
      case True
      have "W / 2 \<le> high - (low + high) / 2" using w by (simp add: field_simps)
      moreover have "0 \<le> (low + high) / 2" using l w pos by simp
      ultimately show ?thesis
        unfolding search_bounds_Suc [OF lh] Inr half using True h by simp
    next
      case False
      have "W / 2 \<le> (low + high) / 2 - low" using w by (simp add: field_simps)
      moreover have "(low + high) / 2 \<le> 1000000" using l w h pos by simp
      ultimately show ?thesis
        unfolding search_bounds_Suc [OF lh] Inr half using False l by simp
    qed
  qed
qed

lemma midpoint_lower: "1000000 / 2 ^ Suc k \<le> midpoint data input flexPct k"
proof -
  obtain low high where lh: "search_bounds data input flexPct k = (low, high)"
    by (cases "search_bounds data input flexPct k")
  define W :: real where "W = 1000000 / 2 ^ k"
  from search_bounds_invariant [of data input flexPct k] lh
  have l: "0 \<le> low" and w: "W \<le> high - low" by (simp_all add: W_def)
  have half: "(1000000::real) / 2 ^ Suc k = W / 2" by (simp add: W_def)
  have "W / 2 \<le> (low + high) / 2" using l w by simp
  then show ?thesis
    unfolding half by (simp add: midpoint_def lh)
qed

lemma solve_loop_success:
  assumes "k \<le> 50" "search_bounds data input flexPct k = (low, high)"
    and "\<forall>j. k \<le> j \<and> j < 50 \<longrightarrow> \<not> isl (probe data input flexPct j)"
  shows "solve_loop data input flexPct k low high best =
     (if k = 50 then Inr best else map_sum id Some (probe data input flexPct 49))"
  using assms
proof (induction "50 - k" arbitrary: k low high best)
  case 0
  then have k: "k = 50" by simp
  then show ?case by (subst solve_loop.simps) simp
next
  case (Suc n)
  then have k: "k < 50" by simp
  with Suc.prems(3) obtain result where pk: "probe data input flexPct k = Inr result"
    by (cases "probe data input flexPct k") auto
  have mid: "midpoint data input flexPct k = (low + high) / 2"
    by (simp add: midpoint_def Suc.prems)
  from pk have co: "calculateOutputs data input (Fin ((low + high) / 2)) flexPct = Inr result"
    by (simp add: probe_def mid)
  define low' where "low' = (if jlt (totalNetMax result) (targetNetSalary input) then (low + high) / 2 else low)"
  define high' where "high' = (if jlt (totalNetMax result) (targetNetSalary input) then high else (low + high) / 2)"
  have sb: "search_bounds data input flexPct (Suc k) = (low', high')"
    unfolding search_bounds_Suc [OF Suc.prems(2)] pk by (simp add: low'_def high'_def)
  have step: "solve_loop data input flexPct k low high best =
      solve_loop data input flexPct (Suc k) low' high' (Some result)"
    using k co by (subst solve_loop.simps) (simp add: low'_def high'_def del: solve_loop.simps)
  have rest: "\<forall>j. Suc k \<le> j \<and> j < 50 \<longrightarrow> \<not> isl (probe data input flexPct j)"
    using Suc.prems(3) by auto
  have n: "n = 50 - Suc k" using Suc.hyps(2) by simp
  have le: "Suc k \<le> 50" using k by simp
  note ih = Suc.hyps(1) [OF n le sb rest, of "Some result"]
  show ?case
  proof (cases "Suc k = 50")
    case True
    then have "k = 49" by simp
    with pk True ih step k show ?thesis by simp
  next
    case False
    with ih step k show ?thesis by simp
  qed
qed

lemma solve_loop_Inr:
  assumes "k \<le> 50" "search_bounds data input flexPct k = (low, high)"
    and "solve_loop data input flexPct k low high best = Inr x"
  shows "\<forall>j. k \<le> j \<and> j < 50 \<longrightarrow> \<not> isl (probe data input flexPct j)"
  using assms
proof (induction "50 - k" arbitrary: k low high best)
  case 0
  then show ?case by auto
next
  case (Suc n)
  then have k: "k < 50" by simp
  have mid: "midpoint data input flexPct k = (low + high) / 2"
    by (simp add: midpoint_def Suc.prems)
  show ?case
  proof (cases "probe data input flexPct k")
    case (Inl e)
    then have "calculateOutputs data input (Fin ((low + high) / 2)) flexPct = Inl e"
      by (simp add: probe_def mid)
    with k have "solve_loop data input flexPct k low high best = Inl e"
      by (subst solve_loop.simps) simp
    with Suc.prems(3) show ?thesis by simp
  next
    case (Inr result)
    then have co: "calculateOutputs data input (Fin ((low + high) / 2)) flexPct = Inr result"
      by (simp add: probe_def mid)
    define low' where "low' = (if jlt (totalNetMax result) (targetNetSalary input) then (low + high) / 2 else low)"
    define high' where "high' = (if jlt (totalNetMax result) (targetNetSalary input) then high else (low + high) / 2)"
    have sb: "search_bounds data input flexPct (Suc k) = (low', high')"
      unfolding search_bounds_Suc [OF Suc.prems(2)] Inr by (simp add: low'_def high'_def)
    have step: "solve_loop data input flexPct k low high best =
        solve_loop data input flexPct (Suc k) low' high' (Some result)"
      using k co by (subst solve_loop.simps) (simp add: low'_def high'_def del: solve_loop.simps)
    have n: "n = 50 - Suc k" using Suc.hyps(2) by simp
    have le: "Suc k \<le> 50" using k by simp
    from Suc.prems(3) step have "solve_loop data input flexPct (Suc k) low' high' (Some result) = Inr x"
      by simp
    from Suc.hyps(1) [OF n le sb this]
    have rest: "\<forall>j. Suc k \<le> j \<and> j < 50 \<longrightarrow> \<not> isl (probe data input flexPct j)" .
    show ?thesis
    proof (intro allI impI)
      fix j assume j: "k \<le> j \<and> j < 50"
      show "\<not> isl (probe data input flexPct j)"
      proof (cases "j = k")
        case True
        with Inr show ?thesis by simp
      next
        case False
        with j have "Suc k \<le> j \<and> j < 50" by simp
        with rest show ?thesis by blast
      qed
    qed
  qed
qed

lemma round2_cents: "round2 (Fin a) = Fin (cents a)"
  by (simp add: round2_Fin cents_def)

lemma cents_mono: "a \<le> b \<Longrightarrow> cents a \<le> cents b"
  unfolding cents_def by (rule round2_mono)

lemma cents_zero [simp]: "cents 0 = 0"
  using round2_real_zero by (simp add: cents_def)

lemma cents_nonneg: "0 \<le> a \<Longrightarrow> 0 \<le> cents a"
  using cents_mono [of 0 a] by simp

lemma EPSILON_bounds: "0 < EPSILON" "EPSILON < 1 / 1000000"
  by (simp_all add: EPSILON_def)

lemma cents_upper: "cents x \<le> x + EPSILON + 1 / 200"
proof -
  have "of_int \<lfloor>(x + EPSILON) * 100 + 1 / 2\<rfloor> \<le> (x + EPSILON) * 100 + 1 / 2"
    by (rule of_int_floor_le)
  then show ?thesis by (simp add: cents_def field_simps)
qed


lemma cents_small:
  assumes "0 \<le> x" "x < 1 / 250"
  shows "cents x = 0"
proof -
  have "0 \<le> (x + EPSILON) * 100 + 1 / 2" "(x + EPSILON) * 100 + 1 / 2 < 1"
    using assms EPSILON_bounds by simp_all
  then have "\<lfloor>(x + EPSILON) * 100 + 1 / 2\<rfloor> = 0" by linarith
  then show ?thesis by (simp add: cents_def)
qed


lemma pick_table_I:
  "pickBand table_I_bands (Fin g) =
     Inr (if g \<le> 920 then table_I_bands ! 0 else if g \<le> 1042 then table_I_bands ! 1 else table_I_bands ! 2)"
  unfolding pickBand_def sort_table_I by (simp add: table_I_bands_def)

lemma formula_band:
  "resolveDeduction (Formula ''0.125 * 2.60 * (1273.85 - R)'') (Fin g)
     = Inr (Fin (0.125 * 2.60 * (1273.85 - g)))"
  by (simp add: resolveDeduction_def formula_match number_evals)

lemma table_I_find:
  "find (\<lambda>t. id_t t = ''I'') (tables mockDataset)
      = Some \<lparr> id_t = ''I'', hasDisability = False, bands = table_I_bands \<rparr>"
  by (simp add: mockDataset_def)

lemma calculate_mock_raw:
  assumes "0 < g"
  shows "\<exists>b raw. raw \<le> g / 5 \<and> (g \<le> 920 \<longrightarrow> raw = 0) \<and>
     calculate (Some mockDataset) (single_input g ssr) =
       Inr \<lparr> tableId = ''I'', band = b, rate = Band.rate b,
             deduction = round2 (case Band.deduction b of Literal n \<Rightarrow> Fin n
                                | Formula e \<Rightarrow> Fin (0.125 * 2.60 * (1273.85 - g)) | Malformed \<Rightarrow> NaN),
             additionalPerDependent =
               round2 (Fin (case Band.additionalPerDependent b of None \<Rightarrow> 0 | Some a \<Rightarrow> a)),
             irsWithheld = Fin (cents (max 0 raw)),
             socialSecurity = round2 (jmul (Fin g) ssr),
             netSalary = round2 (jsub (jsub (Fin g) (Fin (cents (max 0 raw))))
                            (round2 (jmul (Fin g) ssr))) \<rparr>"
proof -
  have v: "\<not> jle (IrsInput.grossSalary (single_input g ssr)) (Fin 0)"
    "isFinite (IrsInput.grossSalary (single_input g ssr))"
    "\<not> jlt (IrsInput.dependents (single_input g ssr)) (Fin 0)"
    "isInteger (IrsInput.dependents (single_input g ssr))"
    "IrsInput.location (single_input g ssr) = continente"
    using assms by (simp_all add: single_input_def)
  have sel: "IrsInput.grossSalary (single_input g ssr) = Fin g"
    "IrsInput.maritalStatus (single_input g ssr) = single"
    "IrsInput.dependents (single_input g ssr) = Fin 0"
    "IrsInput.hasDisability (single_input g ssr) = None"
    "IrsInput.socialSecurityRate (single_input g ssr) = Some ssr"
    by (simp_all add: single_input_def)
  have tid: "pickTableId single (Fin 0) False = ''I''"
    by (simp add: pickTableId_def)
  have b0: "Band.rate (table_I_bands ! 0) = 0" "Band.deduction (table_I_bands ! 0) = Literal 0"
    "Band.additionalPerDependent (table_I_bands ! 0) = None"
    by (simp_all add: table_I_bands_def)
  have b1: "Band.rate (table_I_bands ! 1) = 0.125"
    "Band.deduction (table_I_bands ! 1) = Formula ''0.125 * 2.60 * (1273.85 - R)''"
    "Band.additionalPerDependent (table_I_bands ! 1) = Some 21.43"
    by (simp_all add: table_I_bands_def)
  have b1': "Band.rate (table_I_bands ! Suc 0) = 0.125"
    "Band.deduction (table_I_bands ! Suc 0) = Formula ''0.125 * 2.60 * (1273.85 - R)''"
    "Band.additionalPerDependent (table_I_bands ! Suc 0) = Some 21.43"
    by (simp_all add: table_I_bands_def)
  have b2: "Band.rate (table_I_bands ! 2) = 0.2" "Band.deduction (table_I_bands ! 2) = Literal 100"
    "Band.additionalPerDependent (table_I_bands ! 2) = None"
    by (simp_all add: table_I_bands_def)
  note eq = calculate_valid [OF v, of mockDataset, unfolded sel option.case tid table_I_find]
  consider "g \<le> 920" | "920 < g" "g \<le> 1042" | "1042 < g" by linarith
  then show ?thesis
  proof cases
    case 1
    have "calculate (Some mockDataset) (single_input g ssr) =
       Inr \<lparr> tableId = ''I'', band = table_I_bands ! 0, rate = Band.rate (table_I_bands ! 0),
             deduction = round2 (case Band.deduction (table_I_bands ! 0) of Literal n \<Rightarrow> Fin n
                                | Formula e \<Rightarrow> Fin (0.125 * 2.60 * (1273.85 - g)) | Malformed \<Rightarrow> NaN),
             additionalPerDependent =
               round2 (Fin (case Band.additionalPerDependent (table_I_bands ! 0) of None \<Rightarrow> 0 | Some a \<Rightarrow> a)),
             irsWithheld = Fin (cents (max 0 0)),
             socialSecurity = round2 (jmul (Fin g) ssr),
             netSalary = round2 (jsub (jsub (Fin g) (Fin (cents (max 0 0))))
                            (round2 (jmul (Fin g) ssr))) \<rparr>"
      unfolding eq using 1 by (simp add: pick_table_I b0 resolveDeduction_def round2_cents)
    with assms 1 show ?thesis by (intro exI [of _ "table_I_bands ! 0"] exI [of _ 0]) simp
  next
    case 2
    define raw where "raw = g * 0.125 - 0.125 * 2.60 * (1273.85 - g) - 21.43 * 0"
    have "calculate (Some mockDataset) (single_input g ssr) =
       Inr \<lparr> tableId = ''I'', band = table_I_bands ! 1, rate = Band.rate (table_I_bands ! 1),
             deduction = round2 (case Band.deduction (table_I_bands ! 1) of Literal n \<Rightarrow> Fin n
                                | Formula e \<Rightarrow> Fin (0.125 * 2.60 * (1273.85 - g)) | Malformed \<Rightarrow> NaN),
             additionalPerDependent =
               round2 (Fin (case Band.additionalPerDependent (table_I_bands ! 1) of None \<Rightarrow> 0 | Some a \<Rightarrow> a)),
             irsWithheld = Fin (cents (max 0 raw)),
             socialSecurity = round2 (jmul (Fin g) ssr),
             netSalary = round2 (jsub (jsub (Fin g) (Fin (cents (max 0 raw))))
                            (round2 (jmul (Fin g) ssr))) \<rparr>"
      unfolding eq using 2 by (simp add: pick_table_I b1 b1' formula_band round2_cents raw_def)
    moreover have "raw \<le> g / 5" using 2 by (simp add: raw_def field_simps)
    ultimately show ?thesis using 2 by (intro exI [of _ "table_I_bands ! 1"] exI [of _ raw]) simp
  next
    case 3
    define raw where "raw = g * 0.2 - 100 - 0 * 0"
    have "calculate (Some mockDataset) (single_input g ssr) =
       Inr \<lparr> tableId = ''I'', band = table_I_bands ! 2, rate = Band.rate (table_I_bands ! 2),
             deduction = round2 (case Band.deduction (table_I_bands ! 2) of Literal n \<Rightarrow> Fin n
                                | Formula e \<Rightarrow> Fin (0.125 * 2.60 * (1273.85 - g)) | Malformed \<Rightarrow> NaN),
             additionalPerDependent =
               round2 (Fin (case Band.additionalPerDependent (table_I_bands ! 2) of None \<Rightarrow> 0 | Some a \<Rightarrow> a)),
             irsWithheld = Fin (cents (max 0 raw)),
             socialSecurity = round2 (jmul (Fin g) ssr),
             netSalary = round2 (jsub (jsub (Fin g) (Fin (cents (max 0 raw))))
                            (round2 (jmul (Fin g) ssr))) \<rparr>"
      unfolding eq using 3 by (simp add: pick_table_I b2 resolveDeduction_def round2_cents raw_def)
    moreover have "raw \<le> g / 5" by (simp add: raw_def field_simps)
    ultimately show ?thesis using 3 by (intro exI [of _ "table_I_bands ! 2"] exI [of _ raw]) simp
  qed
qed

lemma calculate_mock:
  assumes "0 < g"
  shows "\<exists>r w. calculate (Some mockDataset) (single_input g ssr) = Inr r
           \<and> irsWithheld r = Fin w \<and> 0 \<le> w \<and> w \<le> g / 5 + 1 / 100 \<and> (g \<le> 920 \<longrightarrow> w = 0)
           \<and> socialSecurity r = round2 (jmul (Fin g) ssr)
           \<and> netSalary r = round2 (jsub (jsub (Fin g) (Fin w)) (round2 (jmul (Fin g) ssr)))"
proof -
  from calculate_mock_raw [OF assms, of ssr] obtain b raw where raw: "raw \<le> g / 5" "g \<le> 920 \<longrightarrow> raw = 0"
    and c: "calculate (Some mockDataset) (single_input g ssr) =
       Inr \<lparr> tableId = ''I'', band = b, rate = Band.rate b,
             deduction = round2 (case Band.deduction b of Literal n \<Rightarrow> Fin n
                                | Formula e \<Rightarrow> Fin (0.125 * 2.60 * (1273.85 - g)) | Malformed \<Rightarrow> NaN),
             additionalPerDependent =
               round2 (Fin (case Band.additionalPerDependent b of None \<Rightarrow> 0 | Some a \<Rightarrow> a)),
             irsWithheld = Fin (cents (max 0 raw)),
             socialSecurity = round2 (jmul (Fin g) ssr),
             netSalary = round2 (jsub (jsub (Fin g) (Fin (cents (max 0 raw))))
                            (round2 (jmul (Fin g) ssr))) \<rparr>"
    by blast
  have "max 0 raw \<le> g / 5" using raw assms by simp
  with cents_upper [of "max 0 raw"] EPSILON_bounds have up: "cents (max 0 raw) \<le> g / 5 + 1 / 100"
    by simp
  have nn: "0 \<le> cents (max 0 raw)" by (rule cents_nonneg) simp
  have z: "g \<le> 920 \<longrightarrow> cents (max 0 raw) = 0" using raw(2) by simp
  show ?thesis
    unfolding c using up nn z by simp
qed

lemma monthly_values_test:
  assumes "242 * d < c"
  defines "T \<equiv> (c - 242 * d) * 80 / 99"
  shows "monthly_values (test_input_with t d) (Fin c) (Fin p) =
     \<lparr> monthlyMealAllowance = Fin (d * 22),
       monthlyValueToBenefits = Fin (T * p / 12),
       monthlyIHT = Fin ((T / 14 - T * p / 12) / 4),
       monthlyBaseSalary = Fin ((T / 14 - T * p / 12) * 3 / 4),
       grossSalary = Fin (T / 14 - T * p / 12) \<rparr>"
proof -
  have "0 \<le> c - 242 * d" using assms by simp
  then have m: "jmax (Fin 0) (Fin (c - 242 * d)) = Fin (c - 242 * d)" by simp
  have a: "jmul (jmul (Fin d) (Fin 22)) (Fin 11) = Fin (242 * d)" by simp
  have v: "jmax (Fin 0) (jsub (Fin c) (Fin (242 * d))) = Fin (c - 242 * d)"
    using m by simp
  have t: "jdiv (Fin (c - 242 * d)) (jadd (Fin 1) (jdiv (Fin 23.75) (Fin 100))) = Fin T"
    by (simp add: T_def)
  have g: "jsub (jdiv (Fin T) (Fin 14)) (jdiv (jmul (Fin T) (Fin p)) (Fin 12)) = Fin (T / 14 - T * p / 12)"
    by simp
  have i: "jdiv (jmul (Fin (T / 14 - T * p / 12)) (Fin 25)) (Fin 100) = Fin ((T / 14 - T * p / 12) / 4)"
    by simp
  have b: "jsub (Fin (T / 14 - T * p / 12)) (Fin ((T / 14 - T * p / 12) / 4)) = Fin ((T / 14 - T * p / 12) * 3 / 4)"
    by (simp add: field_simps)
  have s: "jadd (Fin ((T / 14 - T * p / 12) * 3 / 4)) (Fin ((T / 14 - T * p / 12) / 4)) = Fin (T / 14 - T * p / 12)"
    by (simp add: field_simps)
  have sel: "hasDuodecimos (test_input_with t d) = False"
    "mealAllowanceDaily (test_input_with t d) = Fin d"
    "mealAllowanceDays (test_input_with t d) = Fin 22"
    "mealAllowanceMonths (test_input_with t d) = Fin 11"
    "ihtPercentage (test_input_with t d) = Fin 25"
    "tsu (test_input_with t d) = Fin 23.75"
    by (simp_all add: test_input_with_def reverse_test_input_def)
  show ?thesis
    unfolding monthly_values_def Let_def sel if_False a v t g i b s
    by simp
qed

lemma net_nonneg:
  assumes "0 < g" "0 \<le> w" "w \<le> g / 5 + 1 / 100" "g \<le> 920 \<longrightarrow> w = 0"
  shows "0 \<le> cents (g - w - cents (g * (11 / 100)))"
proof (cases "g < 1 / 40")
  case True
  with assms have w: "w = 0" by simp
  have "cents (g * (11 / 100)) = 0"
    using True assms(1) by (intro cents_small) simp_all
  with w assms(1) show ?thesis by (simp add: cents_nonneg)
next
  case False
  have "cents (g * (11 / 100)) \<le> g * (11 / 100) + EPSILON + 1 / 200"
    by (rule cents_upper)
  with assms(3) EPSILON_bounds False have "0 \<le> g - w - cents (g * (11 / 100))"
    by simp
  then show ?thesis by (rule cents_nonneg)
qed

lemma calculateOutputs_mock:
  assumes "0 \<le> d" "242 * d < c" "0 \<le> p" "p \<le> 3 / 10"
  shows "\<exists>r n. calculateOutputs (Some mockDataset) (test_input_with t d) (Fin c) (Fin p) = Inr r
           \<and> totalNetMax r = Fin n \<and> 0 \<le> n \<and> d * 22 \<le> n"
proof -
  define T where "T = (c - 242 * d) * 80 / 99"
  define G where "G = T / 14 - T * p / 12"
  define B where "B = T * p / 12"
  have T: "0 < T" using assms(2) by (simp add: T_def)
  have "T * p / 12 \<le> T * (3 / 10) / 12" using T assms(4) by simp
  then have G: "0 < G" using T by (simp add: G_def)
  have B: "0 \<le> B" using T assms(3) by (simp add: B_def)
  have GB: "0 < G + B" using G B by simp
  note mv = monthly_values_test [OF assms(2), of t p, folded T_def, folded G_def B_def]
  have sel: "ReverseCalculationInput.maritalStatus (test_input_with t d) = single"
    "ReverseCalculationInput.location (test_input_with t d) = continente"
    "ReverseCalculationInput.dependents (test_input_with t d) = Fin 0"
    "ssRate (test_input_with t d) = Fin (11 / 100)"
    by (simp_all add: test_input_with_def reverse_test_input_def)
  from calculate_mock [OF G, of "Fin (11 / 100)"] obtain r1 w1 where
    c1: "calculate (Some mockDataset) (single_input G (Fin (11 / 100))) = Inr r1"
    and w1: "irsWithheld r1 = Fin w1" "0 \<le> w1" "w1 \<le> G / 5 + 1 / 100" "G \<le> 920 \<longrightarrow> w1 = 0"
    and s1: "socialSecurity r1 = round2 (jmul (Fin G) (Fin (11 / 100)))"
    and n1: "netSalary r1 = round2 (jsub (jsub (Fin G) (Fin w1)) (round2 (jmul (Fin G) (Fin (11 / 100)))))"
    by blast
  from calculate_mock [OF GB, of "Fin 0"] obtain r2 w2 where
    c2: "calculate (Some mockDataset) (single_input (G + B) (Fin 0)) = Inr r2"
    and w2: "irsWithheld r2 = Fin w2"
    by blast
  have net: "netSalary r1 = Fin (cents (G - w1 - cents (G * (11 / 100))))"
    unfolding n1 by (simp add: round2_cents)
  have nn: "0 \<le> cents (G - w1 - cents (G * (11 / 100)))"
    using G w1(2-4) by (rule net_nonneg)
  have ss: "socialSecurity r1 = Fin (cents (G * (11 / 100)))"
    unfolding s1 by (simp add: round2_cents)
  have "calculateOutputs (Some mockDataset) (test_input_with t d) (Fin c) (Fin p) =
      Inr \<lparr> flexBenefitsPercentage = Fin (p * 100), annualCost = Fin c,
            monthlyBaseSalary = Fin (G * 3 / 4), monthlyIHT = Fin (G / 4),
            monthlyBenefits = Fin B, monthlyMealAllowance = Fin (d * 22),
            irs = Fin w1, socialSecurityMax = Fin (cents (G * (11 / 100))),
            socialSecurityMin = Fin (cents (G * (11 / 100))),
            totalNetMin = Fin (G + B - w2 - cents (G * (11 / 100)) + d * 22),
            totalNetMax = Fin (cents (G - w1 - cents (G * (11 / 100))) + d * 22 + B) \<rparr>"
    unfolding calculateOutputs_def mv Let_def sel
    using c1 c2 by (simp add: single_input_def net ss w1(1) w2)
  moreover have "0 \<le> cents (G - w1 - cents (G * (11 / 100))) + d * 22 + B"
    "d * 22 \<le> cents (G - w1 - cents (G * (11 / 100))) + d * 22 + B"
    using nn assms(1) B by simp_all
  ultimately show ?thesis by simp
qed

lemma calculateOutputs_fields:
  assumes "calculateOutputs data input c p = Inr r"
  shows "annualCost r = c" "flexBenefitsPercentage r = jmul p (Fin 100)"
  using assms
  by (auto simp add: calculateOutputs_def Let_def split: sum.splits)

lemma search_bounds_width:
  assumes "\<forall>j<k. \<not> isl (probe data input flexPct j)"
  shows "snd (search_bounds data input flexPct k) - fst (search_bounds data input flexPct k) = 1000000 / 2 ^ k"
  using assms
proof (induction k)
  case 0
  show ?case by simp
next
  case (Suc k)
  obtain low high where lh: "search_bounds data input flexPct k = (low, high)"
    by (cases "search_bounds data input flexPct k")
  define W :: real where "W = 1000000 / 2 ^ k"
  from Suc lh have w: "high - low = W" by (simp add: W_def)
  have half: "(1000000::real) / 2 ^ Suc k = W / 2" by (simp add: W_def)
  from Suc.prems obtain result where pk: "probe data input flexPct k = Inr result"
    by (cases "probe data input flexPct k") auto
  have "high - (low + high) / 2 = W / 2" "(low + high) / 2 - low = W / 2"
    using w by (simp_all add: field_simps)
  then show ?case
    unfolding search_bounds_Suc [OF lh] pk half by simp
qed

lemma solve_success:
  assumes "\<forall>k<50. \<not> isl (probe data input flexPct k)"
  shows "solveForAnnualCost data input flexPct = map_sum id Some (probe data input flexPct 49)"
  unfolding solveForAnnualCost_def
  using solve_loop_success [of 0 data input flexPct 0 1000000 None] assms by simp

lemma solve_Inr:
  assumes "solveForAnnualCost data input flexPct = Inr x"
  shows "\<forall>k<50. \<not> isl (probe data input flexPct k)"
  using solve_loop_Inr [of 0 data input flexPct 0 1000000 None x] assms
  by (simp add: solveForAnnualCost_def)

lemma solve_fails:
  assumes "k < 50" "isl (probe data input flexPct k)"
  shows "isl (solveForAnnualCost data input flexPct)"
proof (cases "solveForAnnualCost data input flexPct")
  case (Inl e)
  then show ?thesis by simp
next
  case (Inr x)
  from solve_Inr [OF this] assms show ?thesis by blast
qed

text \<open>
  C5. For each benefit percentage the solver runs a binary search over [0, 1000000] whose
  only stopping rule is the count of 50 iterations: with the bounds updated as in
  \<open>search_bounds\<close> (the lower bound raised to the midpoint when the max net salary there is
  below the target, the upper bound lowered otherwise), when each of the 50 scenarios is
  computed the interval is halved every time and the call returns the scenario of the
  50th midpoint, whatever the gap; the annual cost of the result is that midpoint. A
  scenario that fails ends the call with a failure.
\<close>

theorem solveForAnnualCost_bisection:
  "((\<forall>k<50. \<not> isl (probe data input flexPct k)) \<longrightarrow>
      solveForAnnualCost data input flexPct = map_sum id Some (probe data input flexPct 49)
      \<and> (\<forall>k\<le>50. snd (search_bounds data input flexPct k) - fst (search_bounds data input flexPct k)
                    = 1000000 / 2 ^ k))
   \<and> ((\<exists>k<50. isl (probe data input flexPct k)) \<longrightarrow> isl (solveForAnnualCost data input flexPct))
   \<and> (\<forall>r. solveForAnnualCost data input flexPct = Inr (Some r) \<longrightarrow>
          annualCost r = Fin (midpoint data input flexPct 49))"
proof (intro conjI impI allI)
  assume a: "\<forall>k<50. \<not> isl (probe data input flexPct k)"
  show "solveForAnnualCost data input flexPct = map_sum id Some (probe data input flexPct 49)"
    using a by (rule solve_success)
  fix k :: nat assume "k \<le> 50"
  with a have "\<forall>j<k. \<not> isl (probe data input flexPct j)" by auto
  then show "snd (search_bounds data input flexPct k) - fst (search_bounds data input flexPct k)
                    = 1000000 / 2 ^ k"
    by (rule search_bounds_width)
next
  assume "\<exists>k<50. isl (probe data input flexPct k)"
  then show "isl (solveForAnnualCost data input flexPct)"
    using solve_fails by blast
next
  fix r assume r: "solveForAnnualCost data input flexPct = Inr (Some r)"
  from solve_success [OF solve_Inr [OF r]] r
  have "probe data input flexPct 49 = Inr r"
    by (cases "probe data input flexPct 49") auto
  then show "annualCost r = Fin (midpoint data input flexPct 49)"
    unfolding probe_def by (rule calculateOutputs_fields)
qed

lemma probes_mock:
  assumes "0 \<le> d" "242 * d < 1000000 / 2 ^ 50" "0 \<le> p" "p \<le> 3 / 10" "k < 50"
  shows "\<exists>r n. probe (Some mockDataset) (test_input_with t d) (Fin p) k = Inr r
            \<and> totalNetMax r = Fin n \<and> 0 \<le> n \<and> d * 22 \<le> n"
proof -
  from assms(5) have "Suc k \<le> 50" by simp
  then have "(2::real) ^ Suc k \<le> 2 ^ 50"
    by (intro power_increasing) simp_all
  then have "(1000000::real) / 2 ^ 50 \<le> 1000000 / 2 ^ Suc k"
    by (intro divide_left_mono) simp_all
  with midpoint_lower [of k "Some mockDataset" "test_input_with t d" "Fin p"] assms(2)
  have "242 * d < midpoint (Some mockDataset) (test_input_with t d) (Fin p) k"
    by linarith
  from calculateOutputs_mock [OF assms(1) this assms(3,4), of t]
  show ?thesis by (simp add: probe_def)
qed

theorem solveForAnnualCost_bisection_witness:
  "solveForAnnualCost (Some mockDataset) (test_input_with (Fin 1500) 0) (Fin 0)
     = map_sum id Some (probe (Some mockDataset) (test_input_with (Fin 1500) 0) (Fin 0) 49)
   \<and> \<not> isl (probe (Some mockDataset) (test_input_with (Fin 1500) 0) (Fin 0) 49)"
proof -
  have "\<forall>k<50. \<not> isl (probe (Some mockDataset) (test_input_with (Fin 1500) 0) (Fin 0) k)"
    using probes_mock [of 0 0 _ "Fin 1500"] by fastforce
  with solveForAnnualCost_bisection [of "Some mockDataset" "test_input_with (Fin 1500) 0" "Fin 0"]
  show ?thesis by simp
qed

lemma proposals_loop_step:
  assumes "pct \<le> 30"
  shows "proposals_loop data input pct acc =
     (case solveForAnnualCost data input (flexPct_of pct) of
        Inl e \<Rightarrow> Inl e
      | Inr p \<Rightarrow> proposals_loop data input (pct + 5) (acc @ [p]))"
  using assms by (subst proposals_loop.simps) (simp add: flexPct_of_def Let_def del: proposals_loop.simps)

lemma proposals_loop_done:
  assumes "30 < pct"
  shows "proposals_loop data input pct acc = Inr acc"
  using assms by (subst proposals_loop.simps) (simp del: proposals_loop.simps)

lemma proposals_loop_Inr:
  assumes "proposals_loop data input pct acc = Inr ps" "pct \<le> 30"
  obtains x where "solveForAnnualCost data input (flexPct_of pct) = Inr x"
    and "proposals_loop data input (pct + 5) (acc @ [x]) = Inr ps"
  using assms unfolding proposals_loop_step [OF assms(2)]
  by (cases "solveForAnnualCost data input (flexPct_of pct)") auto

lemma solve_flex:
  assumes "solveForAnnualCost data input p = Inr x"
  shows "\<exists>r. x = Some r \<and> flexBenefitsPercentage r = jmul p (Fin 100)"
proof -
  from solve_success [OF solve_Inr [OF assms]] assms
  obtain r where "probe data input p 49 = Inr r" "x = Some r"
    by (cases "probe data input p 49") auto
  then show ?thesis
    unfolding probe_def by (auto dest: calculateOutputs_fields(2))
qed

lemma flex_percent: "jmul (flexPct_of pct) (Fin 100) = Fin (real pct)"
  by (simp add: flexPct_of_def)

lemma getProposals_Inr:
  assumes "getProposals data input = Inr ps"
  shows "\<exists>x0 x1 x2 x3 x4 x5 x6. ps = [x0, x1, x2, x3, x4, x5, x6]
     \<and> solveForAnnualCost data input (flexPct_of 0) = Inr x0
     \<and> solveForAnnualCost data input (flexPct_of 5) = Inr x1
     \<and> solveForAnnualCost data input (flexPct_of 10) = Inr x2
     \<and> solveForAnnualCost data input (flexPct_of 15) = Inr x3
     \<and> solveForAnnualCost data input (flexPct_of 20) = Inr x4
     \<and> solveForAnnualCost data input (flexPct_of 25) = Inr x5
     \<and> solveForAnnualCost data input (flexPct_of 30) = Inr x6"
proof -
  from assms have 0: "proposals_loop data input 0 [] = Inr ps" by (simp add: getProposals_def)
  from 0 obtain x0 where s0: "solveForAnnualCost data input (flexPct_of 0) = Inr x0"
    and 1: "proposals_loop data input (0 + 5) ([] @ [x0]) = Inr ps"
    by (rule proposals_loop_Inr) simp
  from 1 obtain x1 where s1: "solveForAnnualCost data input (flexPct_of (0 + 5)) = Inr x1"
    and 2: "proposals_loop data input (0 + 5 + 5) (([] @ [x0]) @ [x1]) = Inr ps"
    by (rule proposals_loop_Inr) simp
  from 2 obtain x2 where s2: "solveForAnnualCost data input (flexPct_of (0 + 5 + 5)) = Inr x2"
    and 3: "proposals_loop data input (0 + 5 + 5 + 5) ((([] @ [x0]) @ [x1]) @ [x2]) = Inr ps"
    by (rule proposals_loop_Inr) simp
  from 3 obtain x3 where s3: "solveForAnnualCost data input (flexPct_of (0 + 5 + 5 + 5)) = Inr x3"
    and 4: "proposals_loop data input (0 + 5 + 5 + 5 + 5) (((([] @ [x0]) @ [x1]) @ [x2]) @ [x3]) = Inr ps"
    by (rule proposals_loop_Inr) simp
  from 4 obtain x4 where s4: "solveForAnnualCost data input (flexPct_of (0 + 5 + 5 + 5 + 5)) = Inr x4"
    and 5: "proposals_loop data input (0 + 5 + 5 + 5 + 5 + 5)
              ((((([] @ [x0]) @ [x1]) @ [x2]) @ [x3]) @ [x4]) = Inr ps"
    by (rule proposals_loop_Inr) simp
  from 5 obtain x5 where s5: "solveForAnnualCost data input (flexPct_of (0 + 5 + 5 + 5 + 5 + 5)) = Inr x5"
    and 6: "proposals_loop data input (0 + 5 + 5 + 5 + 5 + 5 + 5)
              (((((([] @ [x0]) @ [x1]) @ [x2]) @ [x3]) @ [x4]) @ [x5]) = Inr ps"
    by (rule proposals_loop_Inr) simp
  from 6 obtain x6 where s6: "solveForAnnualCost data input (flexPct_of (0 + 5 + 5 + 5 + 5 + 5 + 5)) = Inr x6"
    and 7: "proposals_loop data input (0 + 5 + 5 + 5 + 5 + 5 + 5 + 5)
              ((((((([] @ [x0]) @ [x1]) @ [x2]) @ [x3]) @ [x4]) @ [x5]) @ [x6]) = Inr ps"
    by (rule proposals_loop_Inr) simp
  from 7 have "ps = [x0, x1, x2, x3, x4, x5, x6]"
    by (subst (asm) proposals_loop_done) simp_all
  with s0 s1 s2 s3 s4 s5 s6 show ?thesis by simp
qed

lemma not_isl_Inr: "\<not> isl x \<Longrightarrow> \<exists>y. x = Inr y"
  by (cases x) simp_all

lemma getProposals_success:
  assumes "\<And>pct. pct \<le> 30 \<Longrightarrow> \<not> isl (solveForAnnualCost data input (flexPct_of pct))"
  shows "\<not> isl (getProposals data input)"
proof -
  obtain x0 where s0: "solveForAnnualCost data input (flexPct_of 0) = Inr x0"
    using assms [of 0] not_isl_Inr by auto
  obtain x1 where s1: "solveForAnnualCost data input (flexPct_of 5) = Inr x1"
    using assms [of 5] not_isl_Inr by auto
  obtain x2 where s2: "solveForAnnualCost data input (flexPct_of 10) = Inr x2"
    using assms [of 10] not_isl_Inr by auto
  obtain x3 where s3: "solveForAnnualCost data input (flexPct_of 15) = Inr x3"
    using assms [of 15] not_isl_Inr by auto
  obtain x4 where s4: "solveForAnnualCost data input (flexPct_of 20) = Inr x4"
    using assms [of 20] not_isl_Inr by auto
  obtain x5 where s5: "solveForAnnualCost data input (flexPct_of 25) = Inr x5"
    using assms [of 25] not_isl_Inr by auto
  obtain x6 where s6: "solveForAnnualCost data input (flexPct_of 30) = Inr x6"
    using assms [of 30] not_isl_Inr by auto
  have "proposals_loop data input 35 [x0, x1, x2, x3, x4, x5, x6] = Inr [x0, x1, x2, x3, x4, x5, x6]"
    by (rule proposals_loop_done) simp
  then have "proposals_loop data input 30 [x0, x1, x2, x3, x4, x5] = Inr [x0, x1, x2, x3, x4, x5, x6]"
    by (subst proposals_loop_step) (simp_all add: s6 del: proposals_loop.simps)
  then have "proposals_loop data input 25 [x0, x1, x2, x3, x4] = Inr [x0, x1, x2, x3, x4, x5, x6]"
    by (subst proposals_loop_step) (simp_all add: s5 del: proposals_loop.simps)
  then have "proposals_loop data input 20 [x0, x1, x2, x3] = Inr [x0, x1, x2, x3, x4, x5, x6]"
    by (subst proposals_loop_step) (simp_all add: s4 del: proposals_loop.simps)
  then have "proposals_loop data input 15 [x0, x1, x2] = Inr [x0, x1, x2, x3, x4, x5, x6]"
    by (subst proposals_loop_step) (simp_all add: s3 del: proposals_loop.simps)
  then have "proposals_loop data input 10 [x0, x1] = Inr [x0, x1, x2, x3, x4, x5, x6]"
    by (subst proposals_loop_step) (simp_all add: s2 del: proposals_loop.simps)
  then have "proposals_loop data input 5 [x0] = Inr [x0, x1, x2, x3, x4, x5, x6]"
    by (subst proposals_loop_step) (simp_all add: s1 del: proposals_loop.simps)
  then have "proposals_loop data input 0 [] = Inr [x0, x1, x2, x3, x4, x5, x6]"
    by (subst proposals_loop_step) (simp_all add: s0 del: proposals_loop.simps)
  then show ?thesis by (simp add: getProposals_def del: proposals_loop.simps)
qed

text \<open>
  C8. When no inner call fails, \<open>getProposals\<close> returns exactly 7 proposals, none of them
  null, whose \<^verbatim>\<open>flexBenefitsPercentage\<close> fields are 0, 5, 10, 15, 20, 25, 30 in this order.
\<close>

theorem getProposals_percentages:
  assumes "getProposals data input = Inr ps"
  shows "map (map_option flexBenefitsPercentage) ps
           = [Some (Fin 0), Some (Fin 5), Some (Fin 10), Some (Fin 15), Some (Fin 20),
              Some (Fin 25), Some (Fin 30)]"
proof -
  from getProposals_Inr [OF assms] obtain x0 x1 x2 x3 x4 x5 x6 where
    ps: "ps = [x0, x1, x2, x3, x4, x5, x6]"
    and s: "solveForAnnualCost data input (flexPct_of 0) = Inr x0"
       "solveForAnnualCost data input (flexPct_of 5) = Inr x1"
       "solveForAnnualCost data input (flexPct_of 10) = Inr x2"
       "solveForAnnualCost data input (flexPct_of 15) = Inr x3"
       "solveForAnnualCost data input (flexPct_of 20) = Inr x4"
       "solveForAnnualCost data input (flexPct_of 25) = Inr x5"
       "solveForAnnualCost data input (flexPct_of 30) = Inr x6"
    by blast
  from s [THEN solve_flex] show ?thesis
    unfolding ps flex_percent by auto
qed

lemma solve_mock:
  assumes "0 \<le> d" "242 * d < 1000000 / 2 ^ 50" "pct \<le> 30"
  shows "\<not> isl (solveForAnnualCost (Some mockDataset) (test_input_with t d) (flexPct_of pct))"
proof -
  have f: "flexPct_of pct = Fin (real pct / 100)"
    by (simp add: flexPct_of_def)
  have p: "0 \<le> real pct / 100" "real pct / 100 \<le> 3 / 10"
    using assms(3) by simp_all
  have "\<forall>k<50. \<not> isl (probe (Some mockDataset) (test_input_with t d) (flexPct_of pct) k)"
    unfolding f using probes_mock [OF assms(1,2) p, of _ t] by fastforce
  then have all: "\<forall>k<50. \<not> isl (probe (Some mockDataset) (test_input_with t d) (flexPct_of pct) k)" .
  then have "\<not> isl (probe (Some mockDataset) (test_input_with t d) (flexPct_of pct) 49)" by simp
  then obtain r where "probe (Some mockDataset) (test_input_with t d) (flexPct_of pct) 49 = Inr r"
    using not_isl_Inr by blast
  with solve_success [OF all] show ?thesis by simp
qed

theorem getProposals_percentages_witness:
  "\<exists>ps. getProposals (Some mockDataset) (test_input_with (Fin 1500) 0) = Inr ps
     \<and> map (map_option flexBenefitsPercentage) ps
           = [Some (Fin 0), Some (Fin 5), Some (Fin 10), Some (Fin 15), Some (Fin 20),
              Some (Fin 25), Some (Fin 30)]"
proof -
  have "\<not> isl (getProposals (Some mockDataset) (test_input_with (Fin 1500) 0))"
    by (rule getProposals_success) (rule solve_mock, simp_all)
  then obtain ps where ps: "getProposals (Some mockDataset) (test_input_with (Fin 1500) 0) = Inr ps"
    by (cases "getProposals (Some mockDataset) (test_input_with (Fin 1500) 0)") auto
  from getProposals_percentages [OF ps] ps show ?thesis by (intro exI [of _ ps]) simp
qed

lemma zn_max:
  assumes "jle c m"
  shows "zero_or_nan (jmax (Fin 0) (jsub c m))"
  using assms by (cases c; cases m) (auto simp add: zero_or_nan_def jsub_def)

lemma zn_div: "zero_or_nan x \<Longrightarrow> zero_or_nan (jdiv x y)"
  by (cases y) (auto simp add: zero_or_nan_def)

lemma zn_mul: "zero_or_nan x \<Longrightarrow> zero_or_nan (jmul x y)"
  by (cases y) (auto simp add: zero_or_nan_def scale_inf_def)

lemma zn_sub: "zero_or_nan x \<Longrightarrow> zero_or_nan y \<Longrightarrow> zero_or_nan (jsub x y)"
  by (auto simp add: zero_or_nan_def jsub_def)

lemma zn_add: "zero_or_nan x \<Longrightarrow> zero_or_nan y \<Longrightarrow> zero_or_nan (jadd x y)"
  by (auto simp add: zero_or_nan_def)

lemma low_cost_gross:
  assumes "jle c (annual_meal input)"
  shows "zero_or_nan (MonthlyValues.grossSalary (monthly_values input c p))"
proof -
  note v = zn_max [OF assms [unfolded annual_meal_def]]
  note t = zn_div [OF v, of "jadd (Fin 1) (jdiv (tsu input) (Fin 100))"]
  note d = zn_div [OF t, of "if hasDuodecimos input then Fin 12 else Fin 14"]
  note b = zn_div [OF zn_mul [OF t, of p], of "Fin 12"]
  note w = zn_sub [OF d b]
  note i = zn_div [OF zn_mul [OF w, of "ihtPercentage input"], of "Fin 100"]
  note s = zn_sub [OF w i]
  note g = zn_add [OF s i]
  show ?thesis
    unfolding monthly_values_def Let_def using g by simp
qed

lemma calculate_not_positive:
  assumes "zero_or_nan (IrsInput.grossSalary input)"
  shows "calculate data input = Inl (if data = None then DatasetNotSet else GrossSalaryNotPositive)"
  using assms by (auto simp add: calculate_def zero_or_nan_def Let_def split: option.splits)

lemma low_cost_fails:
  assumes "jle c (annual_meal input)"
  shows "calculateOutputs data input c p = Inl (if data = None then DatasetNotSet else GrossSalaryNotPositive)"
  unfolding calculateOutputs_def Let_def
  by (subst calculate_not_positive) (simp_all add: low_cost_gross [OF assms])

lemma low_cost_zero:
  assumes "c \<le> m" "annual_meal input = Fin m" "tsu input = Fin t" "t \<noteq> - 100"
    "ihtPercentage input = Fin h"
  shows "monthly_values input (Fin c) (Fin q) =
     \<lparr> monthlyMealAllowance = jmul (mealAllowanceDaily input) (mealAllowanceDays input),
       monthlyValueToBenefits = Fin 0, monthlyIHT = Fin 0, monthlyBaseSalary = Fin 0,
       grossSalary = Fin 0 \<rparr>"
proof -
  have v: "jmax (Fin 0) (jsub (Fin c) (Fin m)) = Fin 0" using assms(1) by simp
  have "1 + t / 100 \<noteq> 0" using assms(4) by (simp add: field_simps) 
  then have t: "jdiv (Fin 0) (jadd (Fin 1) (jdiv (Fin t) (Fin 100))) = Fin 0" by simp
  show ?thesis
    unfolding monthly_values_def Let_def assms(2) [unfolded annual_meal_def] assms(3,5) v t
    by simp
qed

lemma down_bounds:
  assumes "\<forall>j<k. \<not> isl (probe data input p j)"
    and "\<forall>j<50. \<forall>r. probe data input p j = Inr r \<longrightarrow> \<not> jlt (totalNetMax r) (targetNetSalary input)"
    and "k \<le> 50"
  shows "search_bounds data input p k = (0, 1000000 / 2 ^ k)"
  using assms(1,3)
proof (induction k)
  case 0
  show ?case by simp
next
  case (Suc k)
  then have lh: "search_bounds data input p k = (0, 1000000 / 2 ^ k)" by simp
  from Suc.prems obtain r where pk: "probe data input p k = Inr r"
    using not_isl_Inr by blast
  moreover from Suc.prems(2) have "k < 50" by simp
  ultimately have "\<not> jlt (totalNetMax r) (targetNetSalary input)" using assms(2) by blast
  then show ?case
    unfolding search_bounds_Suc [OF lh] pk by simp
qed

lemma always_down_fails:
  assumes "jle (Fin (1000000 / 2 ^ 50)) (annual_meal input)"
    and "\<forall>k<50. \<forall>r. probe data input (Fin 0) k = Inr r \<longrightarrow> \<not> jlt (totalNetMax r) (targetNetSalary input)"
  shows "isl (getProposals data input)"
proof (rule ccontr)
  assume "\<not> isl (getProposals data input)"
  then obtain ps where "getProposals data input = Inr ps"
    using not_isl_Inr by blast
  from getProposals_Inr [OF this] obtain x0 where "solveForAnnualCost data input (flexPct_of 0) = Inr x0"
    by blast
  then have "solveForAnnualCost data input (Fin 0) = Inr x0" by (simp add: flexPct_of_def)
  from solve_Inr [OF this] have all: "\<forall>k<50. \<not> isl (probe data input (Fin 0) k)" .
  then have "\<forall>j<49. \<not> isl (probe data input (Fin 0) j)" by simp
  from down_bounds [OF this assms(2)] have "search_bounds data input (Fin 0) 49 = (0, 1000000 / 2 ^ 49)"
    by simp
  then have "midpoint data input (Fin 0) 49 = 1000000 / 2 ^ 50"
    by (simp add: midpoint_def)
  then have "probe data input (Fin 0) 49 = calculateOutputs data input (Fin (1000000 / 2 ^ 50)) (Fin 0)"
    by (simp only: probe_def)
  with low_cost_fails [OF assms(1), of data "Fin 0"] have "isl (probe data input (Fin 0) 49)"
    by simp
  with all show False by simp
qed

text \<open>
  C10, as amended. The taxable budget is clamped at zero, so for a candidate annual cost
  at most the annual meal allowance the gross salary of the inner call is 0 or NaN, the
  call fails the gross-salary check (or finds no dataset) and \<open>calculateOutputs\<close> fails
  with that error; with finite inputs and a TSU other than -100 every derived monthly
  component is 0. Hence for every input whose annual meal allowance is at least
  \<open>1000000 / 2\<^sup>5\<^sup>0\<close> and whose target is not above the max net salary at any midpoint
  where the scenario is computed, \<open>getProposals\<close> fails.
\<close>

theorem low_cost_probe_aborts:
  "(jle c (annual_meal input) \<longrightarrow>
      zero_or_nan (MonthlyValues.grossSalary (monthly_values input c p))
      \<and> calculateOutputs data input c p
          = Inl (if data = None then DatasetNotSet else GrossSalaryNotPositive))
   \<and> (c' \<le> m \<and> annual_meal input = Fin m \<and> tsu input = Fin t \<and> t \<noteq> - 100
        \<and> ihtPercentage input = Fin h \<longrightarrow>
      monthly_values input (Fin c') (Fin q) =
        \<lparr> monthlyMealAllowance = jmul (mealAllowanceDaily input) (mealAllowanceDays input),
          monthlyValueToBenefits = Fin 0, monthlyIHT = Fin 0, monthlyBaseSalary = Fin 0,
          grossSalary = Fin 0 \<rparr>)
   \<and> (jle (Fin (1000000 / 2 ^ 50)) (annual_meal input)
        \<and> (\<forall>k<50. \<forall>r. probe data input (Fin 0) k = Inr r \<longrightarrow>
               \<not> jlt (totalNetMax r) (targetNetSalary input)) \<longrightarrow>
      isl (getProposals data input))"
  using low_cost_gross [of c input p] low_cost_fails [of c input data p]
    low_cost_zero [of c' m input t h q] always_down_fails [of input data]
  by blast

lemma annual_meal_test: "annual_meal (test_input_with t d) = Fin (242 * d)"
  by (simp add: annual_meal_def test_input_with_def reverse_test_input_def)

lemma target_test: "targetNetSalary (test_input_with t d) = t"
  by (simp add: test_input_with_def)

lemma probe_mock_not_below:
  assumes "0 \<le> d" "0 \<le> p" "p \<le> 3 / 10"
    and "probe (Some mockDataset) (test_input_with (Fin 0) d) (Fin p) k = Inr r"
  shows "\<not> jlt (totalNetMax r) (targetNetSalary (test_input_with (Fin 0) d))"
proof (cases "242 * d < midpoint (Some mockDataset) (test_input_with (Fin 0) d) (Fin p) k")
  case True
  from calculateOutputs_mock [OF assms(1) True assms(2,3), of "Fin 0"] assms(4)
  show ?thesis by (auto simp add: probe_def target_test)
next
  case False
  then have "jle (Fin (midpoint (Some mockDataset) (test_input_with (Fin 0) d) (Fin p) k))
               (annual_meal (test_input_with (Fin 0) d))"
    by (simp add: annual_meal_test)
  from low_cost_fails [OF this, of "Some mockDataset" "Fin p"] assms(4)
  show ?thesis by (simp add: probe_def)
qed

theorem low_cost_probe_aborts_witness:
  "jle (Fin 1000) (annual_meal (test_input_with (Fin 0) 10))
   \<and> calculateOutputs (Some mockDataset) (test_input_with (Fin 0) 10) (Fin 1000) (Fin 0)
        = Inl GrossSalaryNotPositive
   \<and> monthly_values (test_input_with (Fin 0) 10) (Fin 1000) (Fin 0) =
        \<lparr> monthlyMealAllowance = Fin 220, monthlyValueToBenefits = Fin 0, monthlyIHT = Fin 0,
          monthlyBaseSalary = Fin 0, grossSalary = Fin 0 \<rparr>
   \<and> jle (Fin (1000000 / 2 ^ 50)) (annual_meal (test_input_with (Fin 0) 10))
   \<and> isl (getProposals (Some mockDataset) (test_input_with (Fin 0) 10))"
proof -
  have a: "jle (Fin 1000) (annual_meal (test_input_with (Fin 0) 10))"
    by (simp add: annual_meal_test)
  have b: "jle (Fin (1000000 / 2 ^ 50)) (annual_meal (test_input_with (Fin 0) 10))"
    by (simp add: annual_meal_test)
  have c: "\<forall>k<50. \<forall>r. probe (Some mockDataset) (test_input_with (Fin 0) 10) (Fin 0) k = Inr r \<longrightarrow>
               \<not> jlt (totalNetMax r) (targetNetSalary (test_input_with (Fin 0) 10))"
    using probe_mock_not_below [of 10 0] by simp
  have d1: "annual_meal (test_input_with (Fin 0) 10) = Fin 2420"
    by (simp add: annual_meal_test)
  have d2: "tsu (test_input_with (Fin 0) 10) = Fin 23.75"
    "ihtPercentage (test_input_with (Fin 0) 10) = Fin 25"
    by (simp_all add: test_input_with_def reverse_test_input_def)
  have d: "(1000::real) \<le> 2420 \<and> annual_meal (test_input_with (Fin 0) 10) = Fin 2420
      \<and> tsu (test_input_with (Fin 0) 10) = Fin 23.75 \<and> (23.75::real) \<noteq> - 100
      \<and> ihtPercentage (test_input_with (Fin 0) 10) = Fin 25"
    using d1 d2 by simp
  have e: "jmul (mealAllowanceDaily (test_input_with (Fin 0) 10)) (mealAllowanceDays (test_input_with (Fin 0) 10))
      = Fin 220"
    by (simp add: test_input_with_def reverse_test_input_def)
  from low_cost_probe_aborts [of "Fin 1000" "test_input_with (Fin 0) 10" "Fin 0" "Some mockDataset"
      1000 2420 "23.75" 25 0] a b c d
  show ?thesis
    unfolding e by simp
qed

text \<open>
  C10 as stated fails for a positive meal allowance below \<open>1000000 / 2\<^sup>5\<^sup>0\<close>: with a
  target of 0 every scenario at every midpoint of the seven searches is computed, the
  target is below its max net salary, and \<open>getProposals\<close> returns its 7 proposals.
\<close>

theorem tiny_meal_counterexample:
  "jlt (Fin 0) (annual_meal tiny_meal_input)
   \<and> list_all (\<lambda>pct. list_all (\<lambda>k.
         case probe (Some mockDataset) tiny_meal_input (flexPct_of pct) k of
           Inl e \<Rightarrow> False
         | Inr r \<Rightarrow> jlt (targetNetSalary tiny_meal_input) (totalNetMax r)) [0..<50])
       [0, 5, 10, 15, 20, 25, 30]
   \<and> map_sum id length (getProposals (Some mockDataset) tiny_meal_input) = Inr 7"
proof (intro conjI)
  have d: "(0::real) \<le> 1 / 10 ^ 15" "242 * (1 / 10 ^ 15) < (1000000::real) / 2 ^ 50"
    by simp_all
  show "jlt (Fin 0) (annual_meal tiny_meal_input)"
    by (simp add: tiny_meal_input_def annual_meal_test)
  have probes: "case probe (Some mockDataset) tiny_meal_input (flexPct_of pct) k of
           Inl e \<Rightarrow> False
         | Inr r \<Rightarrow> jlt (targetNetSalary tiny_meal_input) (totalNetMax r)"
    if "pct \<le> 30" "k < 50" for pct k
  proof -
    have f: "flexPct_of pct = Fin (real pct / 100)"
      by (simp add: flexPct_of_def)
    have p: "0 \<le> real pct / 100" "real pct / 100 \<le> 3 / 10"
      using that(1) by simp_all
    from probes_mock [OF d p that(2), of "Fin 0"]
    show ?thesis
      unfolding f tiny_meal_input_def by (auto simp add: target_test)
  qed
  show "list_all (\<lambda>pct. list_all (\<lambda>k.
         case probe (Some mockDataset) tiny_meal_input (flexPct_of pct) k of
           Inl e \<Rightarrow> False
         | Inr r \<Rightarrow> jlt (targetNetSalary tiny_meal_input) (totalNetMax r)) [0..<50])
       [0, 5, 10, 15, 20, 25, 30]"
    unfolding list_all_iff using probes by auto
  have "\<not> isl (getProposals (Some mockDataset) tiny_meal_input)"
    unfolding tiny_meal_input_def
    by (rule getProposals_success) (rule solve_mock [OF d])
  then obtain ps where ps: "getProposals (Some mockDataset) tiny_meal_input = Inr ps"
    using not_isl_Inr by blast
  from getProposals_Inr [OF ps] have "length ps = 7" by auto
  with ps show "map_sum id length (getProposals (Some mockDataset) tiny_meal_input) = Inr 7"
    by simp
qed

section \<open>Net salary within a band\<close>








end
